theory Spec2Isabelle
  imports Complex_Main "HOL-Library.Word"
begin

unbundle bit_operations_syntax

section \<open>Transports/IridiumSBD/Task.cpp: transmission queue and session orchestration\<close>

text \<open>
  The task owns an ordered list of transmission requests and one slot for the active
  request. Everything it does to the outside (messages dispatched on the bus, calls into
  the modem driver, log lines) is recorded, in order, as a list of actions returned next
  to the new task state. The modem driver runs on its own; what its getters answer
  during one call of \<open>processQueue\<close> is a record given to the call.
\<close>

type_synonym u8 = "8 word"
type_synonym u16 = "16 word"
type_synonym u32 = "32 word"

subsection \<open>TxRequest\<close>

text \<open>
  Modelled from the spec: the class \<open>TxRequest\<close> (TxRequest.hpp is not among the
  sources). Identity, origin, destination, priority key and payload are fixed at
  construction; the assigned sequence number is optional and carries a validity flag.
\<close>

record TxRequest =
  source_address :: u32
  source_entity :: u32
  destination_address :: u32
  request_id :: nat
  time_to_live :: nat
  payload :: "u8 list"
  assigned_sequence_number :: "u32 option"
  sequence_number_valid :: bool

definition TxRequest_new :: "u32 \<Rightarrow> u32 \<Rightarrow> u32 \<Rightarrow> nat \<Rightarrow> nat \<Rightarrow> u8 list \<Rightarrow> TxRequest" where
  "TxRequest_new src_adr src_eid dst_adr req_id ttl bytes =
     \<lparr>source_address = src_adr, source_entity = src_eid, destination_address = dst_adr,
      request_id = req_id, time_to_live = ttl, payload = bytes,
      assigned_sequence_number = None, sequence_number_valid = False\<rparr>"

definition getSource :: "TxRequest \<Rightarrow> u32" where
  "getSource r = source_address r"

definition getSourceEntity :: "TxRequest \<Rightarrow> u32" where
  "getSourceEntity r = source_entity r"

definition getId :: "TxRequest \<Rightarrow> nat" where
  "getId r = request_id r"

definition getTimeToLive :: "TxRequest \<Rightarrow> nat" where
  "getTimeToLive r = time_to_live r"

definition getData :: "TxRequest \<Rightarrow> u8 list" where
  "getData r = payload r"

definition setMSN :: "u32 \<Rightarrow> TxRequest \<Rightarrow> TxRequest" where
  "setMSN msn r = r\<lparr>assigned_sequence_number := Some msn, sequence_number_valid := True\<rparr>"

definition getMSN :: "TxRequest \<Rightarrow> u32 option" where
  "getMSN r = assigned_sequence_number r"

definition hasValidMSN :: "TxRequest \<Rightarrow> bool" where
  "hasValidMSN r = sequence_number_valid r"

definition invalidateMSN :: "TxRequest \<Rightarrow> TxRequest" where
  "invalidateMSN r = r\<lparr>sequence_number_valid := False\<rparr>"

subsection \<open>Messages, driver view, actions\<close>

datatype StatusCodeEnum = TXSTATUS_OK | TXSTATUS_ERROR | TXSTATUS_QUEUED

record IridiumTxStatus =
  st_destination :: u32
  st_destination_entity :: u32
  st_req_id :: nat
  st_status :: StatusCodeEnum
  st_text :: string

record IridiumMsgRx =
  rx_source :: u16
  rx_destination :: u32
  rx_data :: "u8 list"

record IridiumMsgTx =
  tx_source :: u32
  tx_source_entity :: u32
  tx_destination :: string
  tx_req_id :: nat
  tx_ttl :: nat
  tx_data :: "u8 list"

record SessionResult =
  isSuccessMO :: bool
  getSequenceMO :: u32
  getStatusMO :: u32
  getStatusMT :: u32

text \<open>
  What the driver, the clock and the task's own system id answer during one cycle:
  one field for each getter of \<open>Driver\<close> and \<open>SessionResult\<close> that Task.cpp
  calls, under the getter's name (Driver.hpp itself is not among the sources).
  \<open>bufferMT\<close> is the content of the modem's mobile-terminated buffer. The calls
  that make the driver act (\<open>checkMailBox\<close>, \<open>checkMailBoxAlert\<close>, \<open>sendSBD\<close>,
  \<open>clearBufferMO\<close>, and the reads \<open>getMOMSN\<close> and \<open>readBufferMT\<close>) are recorded
  as actions.
\<close>

record Driver =
  isBusy :: bool
  hasSessionResult :: bool
  getSessionResult :: SessionResult
  getRSSI :: u32
  isCooling :: bool
  hasRingAlert :: bool
  getQueuedMT :: u32
  getMOMSN :: u32
  bufferMT :: "u8 list"
  clock_now :: real
  getSystemId :: u32

datatype action =
    Dispatch_TxStatus IridiumTxStatus
  | Dispatch_MsgRx IridiumMsgRx bool
  | Drv_clearBufferMO
  | Drv_readBufferMT nat
  | Drv_checkMailBoxAlert
  | Drv_checkMailBox
  | Drv_getMOMSN
  | Drv_sendSBD "u8 list"
  | Log_debug string
  | Log_err string
  | Log_toText IridiumMsgRx

text \<open>
  Modelled from the spec: \<open>Driver::readBufferMT\<close> (Driver.hpp is not among the
  sources), \<open>read_mt_buffer(max_len) -> bytes\<close>: at most \<open>max_len\<close> bytes of the
  mobile-terminated buffer are copied out, and their number is returned.
\<close>

definition readBufferMT :: "Driver \<Rightarrow> nat \<Rightarrow> u8 list" where
  "readBufferMT drv max_len = take max_len (bufferMT drv)"

subsection \<open>Mailbox check timer\<close>

text \<open>
  Modelled from the spec: the mailbox-check timer (DUNE's Counter of doubles is not
  among the sources). It elapses once the configured period has passed since its last
  reset; the clock reading is an input.
\<close>

record Counter =
  counter_top :: real
  counter_last :: real

definition Counter_reset :: "real \<Rightarrow> Counter \<Rightarrow> Counter" where
  "Counter_reset now c = c\<lparr>counter_last := now\<rparr>"

definition Counter_setTop :: "real \<Rightarrow> real \<Rightarrow> Counter \<Rightarrow> Counter" where
  "Counter_setTop now t c = Counter_reset now (c\<lparr>counter_top := t\<rparr>)"

definition Counter_overflow :: "real \<Rightarrow> Counter \<Rightarrow> bool" where
  "Counter_overflow now c = (counter_last c + counter_top c \<le> now)"

subsection \<open>Task state\<close>

text \<open>
  The members of \<open>Task\<close> that the queue and the cycle read or write. The list holds
  owning pointers, each to a request of its own, so the requests are kept by value;
  a null \<open>m_tx_request\<close> is \<open>None\<close>. The serial port, the driver handle and the
  arguments are left out, and so is \<open>m_queued_mt\<close>, which no function uses.
\<close>

record Task =
  m_tx_requests :: "TxRequest list"
  m_mbox_check_timer :: Counter
  m_tx_request :: "TxRequest option"

text \<open>The constructor: no queued request, no active request.\<close>

definition Task_new :: "Counter \<Rightarrow> Task" where
  "Task_new c = \<lparr>m_tx_requests = [], m_mbox_check_timer = c, m_tx_request = None\<rparr>"

definition onUpdateParameters :: "real \<Rightarrow> real \<Rightarrow> Task \<Rightarrow> Task" where
  "onUpdateParameters now mbox_check_per s =
     s\<lparr>m_mbox_check_timer := Counter_setTop now mbox_check_per (m_mbox_check_timer s)\<rparr>"

subsection \<open>Text formatting\<close>

text \<open>The decimal digits that \<open>%u\<close> prints for an unsigned value.\<close>

definition digit_char :: "nat \<Rightarrow> char" where
  "digit_char d = ''0123456789'' ! d"

fun str_unsigned :: "nat \<Rightarrow> string" where
  "str_unsigned n =
     (if n < 10 then [digit_char n]
      else str_unsigned (n div 10) @ [digit_char (n mod 10)])"

subsection \<open>Status reports\<close>

definition sendTxRequestStatus :: "TxRequest \<Rightarrow> StatusCodeEnum \<Rightarrow> string \<Rightarrow> action" where
  "sendTxRequestStatus request code txt =
     Dispatch_TxStatus
       \<lparr>st_destination = getSource request,
        st_destination_entity = getSourceEntity request,
        st_req_id = getId request,
        st_status = code,
        st_text = txt\<rparr>"

subsection \<open>The request queue\<close>

text \<open>
  The loop of \<open>enqueueTxRequest\<close>: walk the list from the front, insert before the first
  element whose time to live is strictly greater, append when there is none.
\<close>

fun enqueue_loop :: "TxRequest \<Rightarrow> TxRequest list \<Rightarrow> TxRequest list" where
  "enqueue_loop request [] = [request]"
| "enqueue_loop request (x # xs) =
     (if getTimeToLive request < getTimeToLive x then request # x # xs
      else x # enqueue_loop request xs)"

definition enqueueTxRequest :: "TxRequest \<Rightarrow> Task \<Rightarrow> Task" where
  "enqueueTxRequest request s =
     s\<lparr>m_tx_requests := enqueue_loop request (m_tx_requests s)\<rparr>"

definition consume :: "(string \<Rightarrow> u32) \<Rightarrow> IridiumMsgTx \<Rightarrow> Task \<Rightarrow> Task \<times> action list" where
  "consume resolveSystemName msg s =
     (let dst_adr = resolveSystemName (tx_destination msg);
          src_adr = tx_source msg;
          src_eid = tx_source_entity msg;
          request = TxRequest_new src_adr src_eid dst_adr (tx_req_id msg) (tx_ttl msg) (tx_data msg)
      in (enqueueTxRequest request s,
          [Log_debug ''queueing message'', sendTxRequestStatus request TXSTATUS_QUEUED '''']))"

subsection \<open>Resolving the active request\<close>

definition dequeueTxRequest :: "u32 \<Rightarrow> Task \<Rightarrow> Task \<times> action list" where
  "dequeueTxRequest msn s =
     (case m_tx_request s of
        None \<Rightarrow> (s, [])
      | Some r \<Rightarrow>
          if \<not> hasValidMSN r \<or> getMSN r \<noteq> Some msn then (s, [])
          else (s\<lparr>m_tx_request := None\<rparr>,
                [Log_debug ''dequeing message'', Drv_clearBufferMO,
                 sendTxRequestStatus r TXSTATUS_OK '''']))"

definition invalidateTxRequest :: "u32 \<Rightarrow> u32 \<Rightarrow> Task \<Rightarrow> Task \<times> action list" where
  "invalidateTxRequest msn err_code s =
     (case m_tx_request s of
        None \<Rightarrow> (s, [])
      | Some r \<Rightarrow>
          if \<not> hasValidMSN r \<or> getMSN r \<noteq> Some msn then (s, [])
          else
            (let r' = invalidateMSN r
             in ((enqueueTxRequest r' s)\<lparr>m_tx_request := None\<rparr>,
                 [Log_debug ''invalidating MSN'',
                  sendTxRequestStatus r' TXSTATUS_ERROR
                    (''failed with error '' @ str_unsigned (unat err_code))])))"

subsection \<open>Inbound messages\<close>

definition handleSBD :: "Driver \<Rightarrow> action list" where
  "handleSBD drv =
     (let bfr = readBufferMT drv 340;
          rv = length bfr
      in if 2 < rv then
           (let sbd = \<lparr>rx_source = push_bit 8 (ucast (bfr ! 0)) OR ucast (bfr ! 1),
                       rx_destination = getSystemId drv,
                       rx_data = take (rv - 2) (drop 2 bfr)\<rparr>
            in [Drv_readBufferMT 340, Log_toText sbd, Dispatch_MsgRx sbd True])
         else
           [Drv_readBufferMT 340,
            Log_err (''invalid SBD message of size '' @ str_unsigned rv)])"

subsection \<open>Session results and the cycle\<close>

definition handleSessionResult :: "Driver \<Rightarrow> Task \<Rightarrow> Task \<times> action list" where
  "handleSessionResult drv s =
     (let res = getSessionResult drv;
          (s1, a1) =
            (if isSuccessMO res then
               dequeueTxRequest (getSequenceMO res)
                 (s\<lparr>m_mbox_check_timer := Counter_reset (clock_now drv) (m_mbox_check_timer s)\<rparr>)
             else invalidateTxRequest (getSequenceMO res) (getStatusMO res) s)
      in if getStatusMT res = 1 then (s1, a1 @ handleSBD drv) else (s1, a1))"

definition processQueue :: "Driver \<Rightarrow> Task \<Rightarrow> Task \<times> action list" where
  "processQueue drv s =
     (if isBusy drv then (s, [])
      else
        (let (s1, a1) = (if hasSessionResult drv then handleSessionResult drv s else (s, []))
         in if getRSSI drv = 0 then (s1, a1)
            else if isCooling drv then (s1, a1)
            else
              (case m_tx_requests s1 of
                 [] \<Rightarrow>
                   if hasRingAlert drv then (s1, a1 @ [Drv_checkMailBoxAlert])
                   else if 0 < getQueuedMT drv \<or>
                           Counter_overflow (clock_now drv) (m_mbox_check_timer s1)
                   then (s1, a1 @ [Drv_checkMailBox])
                   else (s1, a1)
               | request # rest \<Rightarrow>
                   (let msn = getMOMSN drv;
                        request' = setMSN msn request
                    in (s1\<lparr>m_tx_requests := rest\<rparr>,
                        a1 @ [Drv_getMOMSN, Drv_sendSBD (getData request')])))))"

subsection \<open>Shutdown\<close>

text \<open>
  The destructor's loop: take the front request, remove it, report it as failed.
\<close>

fun drain_loop :: "TxRequest list \<Rightarrow> action list" where
  "drain_loop [] = []"
| "drain_loop (req # rest) =
     sendTxRequestStatus req TXSTATUS_ERROR ''task is shutting down'' # drain_loop rest"

definition Task_destroy :: "Task \<Rightarrow> Task \<times> action list" where
  "Task_destroy s =
     (let s1 = s\<lparr>m_tx_request := None\<rparr>
      in (s1\<lparr>m_tx_requests := []\<rparr>, drain_loop (m_tx_requests s1)))"

subsection \<open>The main loop and the reachable states\<close>

text \<open>
  One iteration of \<open>onMain\<close> delivers the messages that arrived while waiting and
  then runs one cycle.
\<close>

fun consume_all :: "(string \<Rightarrow> u32) \<Rightarrow> IridiumMsgTx list \<Rightarrow> Task \<Rightarrow> Task \<times> action list" where
  "consume_all rsn [] s = (s, [])"
| "consume_all rsn (msg # msgs) s =
     (let (s1, a1) = consume rsn msg s;
          (s2, a2) = consume_all rsn msgs s1
      in (s2, a1 @ a2))"

fun onMain :: "(string \<Rightarrow> u32) \<Rightarrow> (IridiumMsgTx list \<times> Driver) list \<Rightarrow> Task \<Rightarrow> Task \<times> action list" where
  "onMain rsn [] s = (s, [])"
| "onMain rsn ((msgs, drv) # iters) s =
     (let (s1, a1) = consume_all rsn msgs s;
          (s2, a2) = processQueue drv s1;
          (s3, a3) = onMain rsn iters s2
      in (s3, a1 @ a2 @ a3))"

inductive reachable :: "Task \<Rightarrow> bool" where
  reach_new: "reachable (Task_new c)"
| reach_params: "reachable s \<Longrightarrow> reachable (onUpdateParameters now per s)"
| reach_consume: "reachable s \<Longrightarrow> reachable (fst (consume rsn msg s))"
| reach_cycle: "reachable s \<Longrightarrow> reachable (fst (processQueue drv s))"

text \<open>Projections of an action list used to state the properties.\<close>

fun statuses_of :: "action list \<Rightarrow> IridiumTxStatus list" where
  "statuses_of [] = []"
| "statuses_of (Dispatch_TxStatus st # as) = st # statuses_of as"
| "statuses_of (_ # as) = statuses_of as"

fun inbound_of :: "action list \<Rightarrow> IridiumMsgRx list" where
  "inbound_of [] = []"
| "inbound_of (Dispatch_MsgRx m _ # as) = m # inbound_of as"
| "inbound_of (_ # as) = inbound_of as"

fun sends_of :: "action list \<Rightarrow> u8 list list" where
  "sends_of [] = []"
| "sends_of (Drv_sendSBD d # as) = d # sends_of as"
| "sends_of (_ # as) = sends_of as"

fun polls_of :: "action list \<Rightarrow> action list" where
  "polls_of [] = []"
| "polls_of (Drv_checkMailBoxAlert # as) = Drv_checkMailBoxAlert # polls_of as"
| "polls_of (Drv_checkMailBox # as) = Drv_checkMailBox # polls_of as"
| "polls_of (_ # as) = polls_of as"

subsection \<open>Vocabulary of the properties\<close>

text \<open>The gates every new send or poll has to pass: not busy, signal, not cooling.\<close>

definition gates_pass :: "Driver \<Rightarrow> bool" where
  "gates_pass drv = (\<not> isBusy drv \<and> getRSSI drv \<noteq> 0 \<and> \<not> isCooling drv)"

text \<open>The request that \<open>consume\<close> builds from a message.\<close>

definition request_of :: "(string \<Rightarrow> u32) \<Rightarrow> IridiumMsgTx \<Rightarrow> TxRequest" where
  "request_of rsn msg =
     TxRequest_new (tx_source msg) (tx_source_entity msg) (rsn (tx_destination msg))
       (tx_req_id msg) (tx_ttl msg) (tx_data msg)"

text \<open>
  Reading a decimal numeral: the value of a digit character, and the value of a string
  of digits, most significant digit first.
\<close>

definition digit_value :: "char \<Rightarrow> nat" where
  "digit_value c = length (takeWhile (\<lambda>d. d \<noteq> c) ''0123456789'')"

definition decimal_value :: "string \<Rightarrow> nat" where
  "decimal_value ds = foldl (\<lambda>acc c. 10 * acc + digit_value c) 0 ds"

text \<open>Concrete inputs on which the properties are exercised.\<close>

definition example_request :: "nat \<Rightarrow> nat \<Rightarrow> u8 list \<Rightarrow> TxRequest" where
  "example_request req_id ttl bytes = TxRequest_new 10 20 30 req_id ttl bytes"

definition example_message :: "nat \<Rightarrow> nat \<Rightarrow> u8 list \<Rightarrow> IridiumMsgTx" where
  "example_message req_id ttl bytes =
     \<lparr>tx_source = 10, tx_source_entity = 20, tx_destination = ''gateway'',
      tx_req_id = req_id, tx_ttl = ttl, tx_data = bytes\<rparr>"

definition example_resolve :: "string \<Rightarrow> u32" where
  "example_resolve name = 30"

definition example_result :: "bool \<Rightarrow> u32 \<Rightarrow> u32 \<Rightarrow> u32 \<Rightarrow> SessionResult" where
  "example_result ok seq mo mt =
     \<lparr>isSuccessMO = ok, getSequenceMO = seq, getStatusMO = mo, getStatusMT = mt\<rparr>"

text \<open>A driver that is idle, in service and not cooling, with no session result.\<close>

definition example_driver :: Driver where
  "example_driver =
     \<lparr>isBusy = False, hasSessionResult = False,
      getSessionResult = example_result False 0 0 0,
      getRSSI = 5, isCooling = False, hasRingAlert = False, getQueuedMT = 0,
      getMOMSN = 42, bufferMT = [], clock_now = 10, getSystemId = 99\<rparr>"

definition example_counter :: Counter where
  "example_counter = \<lparr>counter_top = 300, counter_last = 0\<rparr>"

definition example_task :: "TxRequest list \<Rightarrow> TxRequest option \<Rightarrow> Task" where
  "example_task q a =
     \<lparr>m_tx_requests = q, m_mbox_check_timer = example_counter, m_tx_request = a\<rparr>"

section \<open>Properties\<close>

subsection \<open>The queue\<close>

lemma enqueue_loop_set: "set (enqueue_loop r q) = insert r (set q)"
  by (induction q) auto

lemma enqueue_loop_sorted:
  "sorted (map getTimeToLive q) \<Longrightarrow> sorted (map getTimeToLive (enqueue_loop r q))"
  by (induction q) (auto simp: enqueue_loop_set)

lemma enqueue_loop_split:
  "enqueue_loop r q =
     takeWhile (\<lambda>x. getTimeToLive x \<le> getTimeToLive r) q @ r #
     dropWhile (\<lambda>x. getTimeToLive x \<le> getTimeToLive r) q"
  by (induction q) auto

lemma dequeueTxRequest_queue:
  "m_tx_requests (fst (dequeueTxRequest msn s)) = m_tx_requests s"
  by (simp add: dequeueTxRequest_def split: option.splits)

lemma invalidateTxRequest_queue:
  "m_tx_requests (fst (invalidateTxRequest msn e s)) =
     (case m_tx_request s of
        None \<Rightarrow> m_tx_requests s
      | Some r \<Rightarrow>
          if \<not> hasValidMSN r \<or> getMSN r \<noteq> Some msn then m_tx_requests s
          else enqueue_loop (invalidateMSN r) (m_tx_requests s))"
  by (simp add: invalidateTxRequest_def enqueueTxRequest_def Let_def split: option.splits)

lemma handleSessionResult_fst:
  "fst (handleSessionResult drv s) =
     fst (if isSuccessMO (getSessionResult drv) then
            dequeueTxRequest (getSequenceMO (getSessionResult drv))
              (s\<lparr>m_mbox_check_timer := Counter_reset (clock_now drv) (m_mbox_check_timer s)\<rparr>)
          else invalidateTxRequest (getSequenceMO (getSessionResult drv))
                 (getStatusMO (getSessionResult drv)) s)"
  by (simp add: handleSessionResult_def Let_def split: prod.splits)

lemma handleSessionResult_snd:
  "snd (handleSessionResult drv s) =
     snd (if isSuccessMO (getSessionResult drv) then
            dequeueTxRequest (getSequenceMO (getSessionResult drv))
              (s\<lparr>m_mbox_check_timer := Counter_reset (clock_now drv) (m_mbox_check_timer s)\<rparr>)
          else invalidateTxRequest (getSequenceMO (getSessionResult drv))
                 (getStatusMO (getSessionResult drv)) s)
     @ (if getStatusMT (getSessionResult drv) = 1 then handleSBD drv else [])"
  by (simp add: handleSessionResult_def Let_def split: prod.splits)

lemma handleSessionResult_sorted:
  "sorted (map getTimeToLive (m_tx_requests s)) \<Longrightarrow>
   sorted (map getTimeToLive (m_tx_requests (fst (handleSessionResult drv s))))"
  by (simp add: handleSessionResult_fst dequeueTxRequest_queue invalidateTxRequest_queue
        enqueue_loop_sorted split: option.splits)

lemma processQueue_sorted:
  assumes "sorted (map getTimeToLive (m_tx_requests s))"
  shows "sorted (map getTimeToLive (m_tx_requests (fst (processQueue drv s))))"
proof -
  let ?p = "if hasSessionResult drv then handleSessionResult drv s else (s, [])"
  have s1: "sorted (map getTimeToLive (m_tx_requests (fst ?p)))"
    using assms by (simp add: handleSessionResult_sorted)
  have "m_tx_requests (fst (processQueue drv s)) = m_tx_requests s \<or>
        m_tx_requests (fst (processQueue drv s)) = m_tx_requests (fst ?p) \<or>
        m_tx_requests (fst (processQueue drv s)) = tl (m_tx_requests (fst ?p))"
    by (simp add: processQueue_def Let_def split: prod.splits list.splits)
  then show ?thesis
    using assms s1 by (cases "m_tx_requests (fst ?p)") auto
qed

lemma consume_queue:
  "m_tx_requests (fst (consume rsn msg s)) = enqueue_loop (request_of rsn msg) (m_tx_requests s)"
  by (simp add: consume_def Let_def enqueueTxRequest_def request_of_def)

lemma consume_sorted:
  "sorted (map getTimeToLive (m_tx_requests s)) \<Longrightarrow>
   sorted (map getTimeToLive (m_tx_requests (fst (consume rsn msg s))))"
  by (simp add: consume_queue enqueue_loop_sorted)

lemma reachable_sorted:
  "reachable s \<Longrightarrow> sorted (map getTimeToLive (m_tx_requests s))"
proof (induction rule: reachable.induct)
  case (reach_new c)
  show ?case by (simp add: Task_new_def)
next
  case (reach_params s now per)
  then show ?case by (simp add: onUpdateParameters_def)
next
  case (reach_consume s rsn msg)
  then show ?case by (simp add: consume_sorted)
next
  case (reach_cycle s drv)
  then show ?case by (simp add: processQueue_sorted)
qed

lemma consume_all_queue:
  "m_tx_requests (fst (consume_all rsn msgs s)) =
     fold (\<lambda>m q. enqueue_loop (request_of rsn m) q) msgs (m_tx_requests s)"
  by (induction msgs arbitrary: s) (simp_all add: consume_queue split_beta)

lemma consume_all_sends: "sends_of (snd (consume_all rsn msgs s)) = []"
  by (induction msgs arbitrary: s)
     (simp_all add: split_beta consume_def Let_def sendTxRequestStatus_def)

lemma sends_of_append: "sends_of (xs @ ys) = sends_of xs @ sends_of ys"
  by (induction xs rule: sends_of.induct) simp_all

lemma processQueue_send:
  assumes "gates_pass drv" "\<not> hasSessionResult drv" "m_tx_requests s = r # rest"
  shows "processQueue drv s =
           (s\<lparr>m_tx_requests := rest\<rparr>, [Drv_getMOMSN, Drv_sendSBD (getData r)])"
  using assms by (simp add: processQueue_def gates_pass_def setMSN_def getData_def)

lemma ttl_request_of: "getTimeToLive (request_of rsn m) = tx_ttl m"
  by (simp add: request_of_def TxRequest_new_def getTimeToLive_def)

lemma data_request_of: "getData (request_of rsn m) = tx_data m"
  by (simp add: request_of_def TxRequest_new_def getData_def)

lemma request_of_example:
  "request_of example_resolve (example_message i t b) = example_request i t b"
  by (simp add: request_of_def example_message_def example_request_def example_resolve_def)

lemma onMain_idle_cycles_sends:
  assumes "\<forall>it \<in> set iters. fst it = [] \<and> gates_pass (snd it) \<and> \<not> hasSessionResult (snd it)"
    and "length iters \<le> length (m_tx_requests s)"
  shows "sends_of (snd (onMain rsn iters s)) =
           map getData (take (length iters) (m_tx_requests s))"
  using assms
proof (induction iters arbitrary: s)
  case Nil
  show ?case by simp
next
  case (Cons it iters)
  obtain msgs drv where it: "it = (msgs, drv)" by (cases it)
  from Cons.prems(1) it have g: "msgs = []" "gates_pass drv" "\<not> hasSessionResult drv"
    by simp_all
  from Cons.prems(2) obtain r rest where q: "m_tx_requests s = r # rest"
    by (cases "m_tx_requests s") simp_all
  have step: "processQueue drv s =
      (s\<lparr>m_tx_requests := rest\<rparr>, [Drv_getMOMSN, Drv_sendSBD (getData r)])"
    using g(2,3) q by (rule processQueue_send)
  have "sends_of (snd (onMain rsn iters (s\<lparr>m_tx_requests := rest\<rparr>))) =
          map getData (take (length iters) rest)"
    using Cons.IH [of "s\<lparr>m_tx_requests := rest\<rparr>"] Cons.prems q by simp
  then show ?case
    by (simp add: it g(1) step q split_beta sends_of_append)
qed

lemma ttl_example_queue:
  assumes "tx_ttl m1 = 5" "tx_ttl m2 = 1" "tx_ttl m3 = 3" "tx_ttl m4 = 1"
  shows "m_tx_requests (fst (consume_all rsn [m1, m2, m3, m4] (Task_new c))) =
           [request_of rsn m2, request_of rsn m4, request_of rsn m3, request_of rsn m1]"
  using assms by (simp add: consume_all_queue Task_new_def ttl_request_of del: consume_all.simps)

lemma ttl_example_sends:
  assumes "tx_ttl m1 = 5" "tx_ttl m2 = 1" "tx_ttl m3 = 3" "tx_ttl m4 = 1"
    and "gates_pass d1" "\<not> hasSessionResult d1" "gates_pass d2" "\<not> hasSessionResult d2"
    and "gates_pass d3" "\<not> hasSessionResult d3" "gates_pass d4" "\<not> hasSessionResult d4"
  shows "sends_of (snd (onMain rsn [([], d1), ([], d2), ([], d3), ([], d4)]
            (fst (consume_all rsn [m1, m2, m3, m4] (Task_new c))))) =
           [tx_data m2, tx_data m4, tx_data m3, tx_data m1]"
proof -
  let ?s0 = "fst (consume_all rsn [m1, m2, m3, m4] (Task_new c))"
  have q0: "m_tx_requests ?s0 =
      [request_of rsn m2, request_of rsn m4, request_of rsn m3, request_of rsn m1]"
    using assms(1-4) by (rule ttl_example_queue)
  have "sends_of (snd (onMain rsn [([], d1), ([], d2), ([], d3), ([], d4)] ?s0)) =
          map getData (take (length [([]::IridiumMsgTx list, d1), ([], d2), ([], d3), ([], d4)])
            (m_tx_requests ?s0))"
    by (rule onMain_idle_cycles_sends) (simp_all add: assms q0 del: consume_all.simps)
  then show ?thesis
    by (simp add: q0 data_request_of del: consume_all.simps onMain.simps)
qed

text \<open>
  C4. The request queue is ordered ascending by time to live in every reachable state,
  and ties keep their order of arrival: \<open>enqueueTxRequest\<close> keeps a sorted queue sorted
  and puts the request right before the first queued request with a strictly greater
  time to live, after all those with an equal or smaller one. Four messages with the
  times to live 5, 1, 3, 1, arriving in that order, are queued as second, fourth, third,
  first, and four cycles with open gates send their payloads in that order.
\<close>

theorem queue_ordered_by_time_to_live:
  "(reachable s \<longrightarrow> sorted (map getTimeToLive (m_tx_requests s))) \<and>
   (sorted (map getTimeToLive (m_tx_requests t)) \<longrightarrow>
      sorted (map getTimeToLive (m_tx_requests (enqueueTxRequest r t)))) \<and>
   m_tx_requests (enqueueTxRequest r t) =
     takeWhile (\<lambda>x. getTimeToLive x \<le> getTimeToLive r) (m_tx_requests t) @ r #
     dropWhile (\<lambda>x. getTimeToLive x \<le> getTimeToLive r) (m_tx_requests t) \<and>
   (tx_ttl m1 = 5 \<and> tx_ttl m2 = 1 \<and> tx_ttl m3 = 3 \<and> tx_ttl m4 = 1 \<longrightarrow>
      m_tx_requests (fst (consume_all rsn [m1, m2, m3, m4] (Task_new c))) =
        [request_of rsn m2, request_of rsn m4, request_of rsn m3, request_of rsn m1] \<and>
      (gates_pass d1 \<and> \<not> hasSessionResult d1 \<and> gates_pass d2 \<and> \<not> hasSessionResult d2 \<and>
       gates_pass d3 \<and> \<not> hasSessionResult d3 \<and> gates_pass d4 \<and> \<not> hasSessionResult d4 \<longrightarrow>
         sends_of (snd (onMain rsn [([], d1), ([], d2), ([], d3), ([], d4)]
             (fst (consume_all rsn [m1, m2, m3, m4] (Task_new c))))) =
           [tx_data m2, tx_data m4, tx_data m3, tx_data m1]))"
proof (intro conjI impI)
  assume "reachable s"
  then show "sorted (map getTimeToLive (m_tx_requests s))"
    by (rule reachable_sorted)
next
  assume "sorted (map getTimeToLive (m_tx_requests t))"
  then show "sorted (map getTimeToLive (m_tx_requests (enqueueTxRequest r t)))"
    by (simp add: enqueueTxRequest_def enqueue_loop_sorted)
next
  show "m_tx_requests (enqueueTxRequest r t) =
     takeWhile (\<lambda>x. getTimeToLive x \<le> getTimeToLive r) (m_tx_requests t) @ r #
     dropWhile (\<lambda>x. getTimeToLive x \<le> getTimeToLive r) (m_tx_requests t)"
    using enqueue_loop_split [of r "m_tx_requests t"] by (simp add: enqueueTxRequest_def)
next
  assume "tx_ttl m1 = 5 \<and> tx_ttl m2 = 1 \<and> tx_ttl m3 = 3 \<and> tx_ttl m4 = 1"
  then show "m_tx_requests (fst (consume_all rsn [m1, m2, m3, m4] (Task_new c))) =
        [request_of rsn m2, request_of rsn m4, request_of rsn m3, request_of rsn m1]"
    by (intro ttl_example_queue) simp_all
next
  assume ttl: "tx_ttl m1 = 5 \<and> tx_ttl m2 = 1 \<and> tx_ttl m3 = 3 \<and> tx_ttl m4 = 1"
    and g: "gates_pass d1 \<and> \<not> hasSessionResult d1 \<and> gates_pass d2 \<and> \<not> hasSessionResult d2 \<and>
       gates_pass d3 \<and> \<not> hasSessionResult d3 \<and> gates_pass d4 \<and> \<not> hasSessionResult d4"
  show "sends_of (snd (onMain rsn [([], d1), ([], d2), ([], d3), ([], d4)]
             (fst (consume_all rsn [m1, m2, m3, m4] (Task_new c))))) =
           [tx_data m2, tx_data m4, tx_data m3, tx_data m1]"
    using ttl g by (intro ttl_example_sends) simp_all
qed

theorem queue_ordered_by_time_to_live_witness:
  "sorted (map getTimeToLive (m_tx_requests
      (fst (consume example_resolve (example_message 7 2 [])
        (fst (consume example_resolve (example_message 6 4 []) (Task_new example_counter))))))) \<and>
   sorted (map getTimeToLive (m_tx_requests
      (enqueueTxRequest (example_request 9 1 [])
        (example_task [example_request 1 1 [], example_request 2 3 []] None)))) \<and>
   m_tx_requests (enqueueTxRequest (example_request 9 1 [])
        (example_task [example_request 1 1 [], example_request 2 3 []] None)) =
     [example_request 1 1 [], example_request 9 1 [], example_request 2 3 []] \<and>
   m_tx_requests (fst (consume_all example_resolve
      [example_message 1 5 [1], example_message 2 1 [2], example_message 3 3 [3],
       example_message 4 1 [4]] (Task_new example_counter))) =
     [example_request 2 1 [2], example_request 4 1 [4], example_request 3 3 [3],
      example_request 1 5 [1]] \<and>
   sends_of (snd (onMain example_resolve
      [([], example_driver), ([], example_driver), ([], example_driver), ([], example_driver)]
      (fst (consume_all example_resolve
        [example_message 1 5 [1], example_message 2 1 [2], example_message 3 3 [3],
         example_message 4 1 [4]] (Task_new example_counter))))) =
     [[2], [4], [3], [1]]"
proof -
  have reach: "reachable (fst (consume example_resolve (example_message 7 2 [])
        (fst (consume example_resolve (example_message 6 4 []) (Task_new example_counter)))))"
    by (intro reach_consume reach_new)
  have srt: "sorted (map getTimeToLive (m_tx_requests
      (example_task [example_request 1 1 [], example_request 2 3 []] None)))"
    by (simp add: example_task_def example_request_def TxRequest_new_def getTimeToLive_def)
  have ttl: "tx_ttl (example_message 1 5 [1]) = 5 \<and> tx_ttl (example_message 2 1 [2]) = 1 \<and>
      tx_ttl (example_message 3 3 [3]) = 3 \<and> tx_ttl (example_message 4 1 [4]) = 1"
    by (simp add: example_message_def)
  have g: "gates_pass example_driver \<and> \<not> hasSessionResult example_driver"
    by (simp add: gates_pass_def example_driver_def)
  have tw: "takeWhile (\<lambda>x. getTimeToLive x \<le> getTimeToLive (example_request 9 1 []))
        (m_tx_requests (example_task [example_request 1 1 [], example_request 2 3 []] None)) @
      example_request 9 1 [] #
      dropWhile (\<lambda>x. getTimeToLive x \<le> getTimeToLive (example_request 9 1 []))
        (m_tx_requests (example_task [example_request 1 1 [], example_request 2 3 []] None)) =
      [example_request 1 1 [], example_request 9 1 [], example_request 2 3 []]"
    by (simp add: example_task_def example_request_def TxRequest_new_def getTimeToLive_def)
  note T = queue_ordered_by_time_to_live
      [where s = "fst (consume example_resolve (example_message 7 2 [])
          (fst (consume example_resolve (example_message 6 4 []) (Task_new example_counter))))"
        and t = "example_task [example_request 1 1 [], example_request 2 3 []] None"
        and r = "example_request 9 1 []"
        and ?m1.0 = "example_message 1 5 [1]" and ?m2.0 = "example_message 2 1 [2]"
        and ?m3.0 = "example_message 3 3 [3]" and ?m4.0 = "example_message 4 1 [4]"
        and rsn = example_resolve and c = example_counter
        and ?d1.0 = example_driver and ?d2.0 = example_driver
        and ?d3.0 = example_driver and ?d4.0 = example_driver]
  have c1: "sorted (map getTimeToLive (m_tx_requests
      (fst (consume example_resolve (example_message 7 2 [])
        (fst (consume example_resolve (example_message 6 4 []) (Task_new example_counter)))))))"
    using T reach by blast
  have c2: "sorted (map getTimeToLive (m_tx_requests
      (enqueueTxRequest (example_request 9 1 [])
        (example_task [example_request 1 1 [], example_request 2 3 []] None))))"
    using T srt by blast
  have "m_tx_requests (enqueueTxRequest (example_request 9 1 [])
        (example_task [example_request 1 1 [], example_request 2 3 []] None)) =
      takeWhile (\<lambda>x. getTimeToLive x \<le> getTimeToLive (example_request 9 1 []))
        (m_tx_requests (example_task [example_request 1 1 [], example_request 2 3 []] None)) @
      example_request 9 1 [] #
      dropWhile (\<lambda>x. getTimeToLive x \<le> getTimeToLive (example_request 9 1 []))
        (m_tx_requests (example_task [example_request 1 1 [], example_request 2 3 []] None))"
    using T by blast
  then have c3: "m_tx_requests (enqueueTxRequest (example_request 9 1 [])
        (example_task [example_request 1 1 [], example_request 2 3 []] None)) =
     [example_request 1 1 [], example_request 9 1 [], example_request 2 3 []]"
    by (simp only: tw)
  have "m_tx_requests (fst (consume_all example_resolve
      [example_message 1 5 [1], example_message 2 1 [2], example_message 3 3 [3],
       example_message 4 1 [4]] (Task_new example_counter))) =
     [request_of example_resolve (example_message 2 1 [2]),
      request_of example_resolve (example_message 4 1 [4]),
      request_of example_resolve (example_message 3 3 [3]),
      request_of example_resolve (example_message 1 5 [1])]"
    using T ttl by blast
  then have c4: "m_tx_requests (fst (consume_all example_resolve
      [example_message 1 5 [1], example_message 2 1 [2], example_message 3 3 [3],
       example_message 4 1 [4]] (Task_new example_counter))) =
     [example_request 2 1 [2], example_request 4 1 [4], example_request 3 3 [3],
      example_request 1 5 [1]]"
    by (simp only: request_of_example)
  have "sends_of (snd (onMain example_resolve
      [([], example_driver), ([], example_driver), ([], example_driver), ([], example_driver)]
      (fst (consume_all example_resolve
        [example_message 1 5 [1], example_message 2 1 [2], example_message 3 3 [3],
         example_message 4 1 [4]] (Task_new example_counter))))) =
     [tx_data (example_message 2 1 [2]), tx_data (example_message 4 1 [4]),
      tx_data (example_message 3 3 [3]), tx_data (example_message 1 5 [1])]"
    using T ttl g by blast
  moreover have "tx_data (example_message i k b) = b" for i k b
    by (simp add: example_message_def)
  ultimately have c5: "sends_of (snd (onMain example_resolve
      [([], example_driver), ([], example_driver), ([], example_driver), ([], example_driver)]
      (fst (consume_all example_resolve
        [example_message 1 5 [1], example_message 2 1 [2], example_message 3 3 [3],
         example_message 4 1 [4]] (Task_new example_counter))))) =
     [[2], [4], [3], [1]]"
    by (simp only:)
  show ?thesis
    using c1 c2 c3 c4 c5 by (intro conjI)
qed

subsection \<open>The active slot\<close>

lemma dequeueTxRequest_idle:
  "m_tx_request s = None \<Longrightarrow> dequeueTxRequest msn s = (s, [])"
  by (simp add: dequeueTxRequest_def)

lemma invalidateTxRequest_idle:
  "m_tx_request s = None \<Longrightarrow> invalidateTxRequest msn e s = (s, [])"
  by (simp add: invalidateTxRequest_def)

lemma handleSessionResult_idle_slot:
  "m_tx_request s = None \<Longrightarrow> m_tx_request (fst (handleSessionResult drv s)) = None"
  by (simp add: handleSessionResult_fst dequeueTxRequest_idle invalidateTxRequest_idle)

lemma processQueue_idle_slot:
  assumes "m_tx_request s = None"
  shows "m_tx_request (fst (processQueue drv s)) = None"
proof -
  let ?p = "if hasSessionResult drv then handleSessionResult drv s else (s, [])"
  have s1: "m_tx_request (fst ?p) = None"
    using assms by (simp add: handleSessionResult_idle_slot)
  have "m_tx_request (fst (processQueue drv s)) = m_tx_request s \<or>
        m_tx_request (fst (processQueue drv s)) = m_tx_request (fst ?p)"
    by (simp add: processQueue_def Let_def split: prod.splits list.splits)
  then show ?thesis using assms s1 by auto
qed

lemma reachable_idle_slot: "reachable s \<Longrightarrow> m_tx_request s = None"
proof (induction rule: reachable.induct)
  case (reach_new c)
  show ?case by (simp add: Task_new_def)
next
  case (reach_params s now per)
  then show ?case by (simp add: onUpdateParameters_def)
next
  case (reach_consume s rsn msg)
  then show ?case by (simp add: consume_def Let_def enqueueTxRequest_def)
next
  case (reach_cycle s drv)
  then show ?case by (simp add: processQueue_idle_slot)
qed

text \<open>
  C1. A cycle that passes every gate with one queued request and no session result:
  \<open>processQueue\<close> removes the head request, asks the driver for a sequence number and
  submits the request's payload, but the request (with its sequence number) is kept
  nowhere: the active slot \<open>m_tx_request\<close> is still empty after the cycle.
\<close>

theorem send_cycle_leaves_active_slot_empty:
  "processQueue example_driver (example_task [example_request 1 5 [0xDE, 0xAD]] None) =
     (example_task [] None, [Drv_getMOMSN, Drv_sendSBD [0xDE, 0xAD]]) \<and>
   m_tx_request (fst (processQueue example_driver
       (example_task [example_request 1 5 [0xDE, 0xAD]] None))) \<noteq>
     Some (setMSN (getMOMSN example_driver) (example_request 1 5 [0xDE, 0xAD]))"
  by (simp add: processQueue_def example_driver_def example_task_def example_request_def
        TxRequest_new_def setMSN_def getData_def)

text \<open>
  C2. Two queued requests and two cycles. The first cycle sends the first request with
  the sequence number 42. In the second cycle the driver holds the successful result
  of that session: no confirmation is reported for the first request (the active slot
  was never filled, so the result matches nothing), and the second request is sent.
\<close>

theorem second_send_without_resolution:
  "onMain example_resolve
     [([], example_driver),
      ([], example_driver\<lparr>hasSessionResult := True,
            getSessionResult := example_result True 42 0 0, getMOMSN := 43\<rparr>)]
     (example_task [example_request 1 1 [0xA1], example_request 2 2 [0xB2]] None) =
   (\<lparr>m_tx_requests = [],
     m_mbox_check_timer = \<lparr>counter_top = 300, counter_last = 10\<rparr>,
     m_tx_request = None\<rparr>,
    [Drv_getMOMSN, Drv_sendSBD [0xA1], Drv_getMOMSN, Drv_sendSBD [0xB2]])"
  by (simp add: processQueue_def handleSessionResult_def dequeueTxRequest_def
        example_driver_def example_task_def example_request_def example_result_def
        example_counter_def Counter_reset_def TxRequest_new_def setMSN_def getData_def)

subsection \<open>Shutdown\<close>

lemma drain_loop_map:
  "drain_loop q = map (\<lambda>r. sendTxRequestStatus r TXSTATUS_ERROR ''task is shutting down'') q"
  by (induction q) simp_all

text \<open>
  C3 (as the code has it). On shutdown with two queued requests and one active request,
  exactly two statuses are emitted, one per queued request, each an ERROR with the text
  "task is shutting down"; the active request is discarded without a status. Afterwards
  the queue and the active slot are both empty.
\<close>

theorem shutdown_reports_queued_requests:
  assumes "m_tx_requests s = [q1, q2]" and "m_tx_request s = Some a"
  shows "snd (Task_destroy s) =
           [sendTxRequestStatus q1 TXSTATUS_ERROR ''task is shutting down'',
            sendTxRequestStatus q2 TXSTATUS_ERROR ''task is shutting down''] \<and>
         statuses_of (snd (Task_destroy s)) =
           [\<lparr>st_destination = getSource q1, st_destination_entity = getSourceEntity q1,
             st_req_id = getId q1, st_status = TXSTATUS_ERROR,
             st_text = ''task is shutting down''\<rparr>,
            \<lparr>st_destination = getSource q2, st_destination_entity = getSourceEntity q2,
             st_req_id = getId q2, st_status = TXSTATUS_ERROR,
             st_text = ''task is shutting down''\<rparr>] \<and>
         m_tx_requests (fst (Task_destroy s)) = [] \<and>
         m_tx_request (fst (Task_destroy s)) = None"
  using assms by (simp add: Task_destroy_def sendTxRequestStatus_def)

theorem shutdown_reports_queued_requests_witness:
  "snd (Task_destroy (example_task [example_request 1 5 [1], example_request 2 7 [2]]
          (Some (setMSN 42 (example_request 3 1 [3]))))) =
     [sendTxRequestStatus (example_request 1 5 [1]) TXSTATUS_ERROR ''task is shutting down'',
      sendTxRequestStatus (example_request 2 7 [2]) TXSTATUS_ERROR ''task is shutting down''] \<and>
   statuses_of (snd (Task_destroy (example_task [example_request 1 5 [1], example_request 2 7 [2]]
          (Some (setMSN 42 (example_request 3 1 [3])))))) =
     [\<lparr>st_destination = 10, st_destination_entity = 20, st_req_id = 1,
       st_status = TXSTATUS_ERROR, st_text = ''task is shutting down''\<rparr>,
      \<lparr>st_destination = 10, st_destination_entity = 20, st_req_id = 2,
       st_status = TXSTATUS_ERROR, st_text = ''task is shutting down''\<rparr>] \<and>
   m_tx_requests (fst (Task_destroy (example_task [example_request 1 5 [1], example_request 2 7 [2]]
          (Some (setMSN 42 (example_request 3 1 [3])))))) = [] \<and>
   m_tx_request (fst (Task_destroy (example_task [example_request 1 5 [1], example_request 2 7 [2]]
          (Some (setMSN 42 (example_request 3 1 [3])))))) = None"
proof -
  have q: "m_tx_requests (example_task [example_request 1 5 [1], example_request 2 7 [2]]
          (Some (setMSN 42 (example_request 3 1 [3])))) =
        [example_request 1 5 [1], example_request 2 7 [2]]"
    and a: "m_tx_request (example_task [example_request 1 5 [1], example_request 2 7 [2]]
          (Some (setMSN 42 (example_request 3 1 [3])))) =
        Some (setMSN 42 (example_request 3 1 [3]))"
    by (simp_all add: example_task_def)
  have f: "getSource (example_request i k b) = 10"
    "getSourceEntity (example_request i k b) = 20"
    "getId (example_request i k b) = i" for i k b
    by (simp_all add: example_request_def TxRequest_new_def getSource_def getSourceEntity_def
          getId_def)
  show ?thesis
    by (rule shutdown_reports_queued_requests [OF q a, unfolded f])
qed

theorem shutdown_three_errors_counterexample:
  "length (filter (\<lambda>st. st_status st = TXSTATUS_ERROR)
     (statuses_of (snd (Task_destroy
        (example_task [example_request 1 5 [1], example_request 2 7 [2]]
          (Some (setMSN 42 (example_request 3 1 [3])))))))) \<noteq> 3"
  by (simp add: Task_destroy_def example_task_def sendTxRequestStatus_def)

subsection \<open>Resolving a session result\<close>

lemma statuses_of_append: "statuses_of (xs @ ys) = statuses_of xs @ statuses_of ys"
  by (induction xs rule: statuses_of.induct) simp_all

lemma statuses_of_handleSBD: "statuses_of (handleSBD drv) = []"
  by (simp add: handleSBD_def Let_def)

lemma invalidateTxRequest_match:
  assumes "m_tx_request s = Some r" and "hasValidMSN r" and "getMSN r = Some msn"
  shows "invalidateTxRequest msn e s =
           (s\<lparr>m_tx_requests := enqueue_loop (invalidateMSN r) (m_tx_requests s),
              m_tx_request := None\<rparr>,
            [Log_debug ''invalidating MSN'',
             sendTxRequestStatus (invalidateMSN r) TXSTATUS_ERROR
               (''failed with error '' @ str_unsigned (unat e))])"
  using assms by (simp add: invalidateTxRequest_def enqueueTxRequest_def Let_def)

lemma dequeueTxRequest_match:
  assumes "m_tx_request s = Some r" and "hasValidMSN r" and "getMSN r = Some msn"
  shows "dequeueTxRequest msn s =
           (s\<lparr>m_tx_request := None\<rparr>,
            [Log_debug ''dequeing message'', Drv_clearBufferMO,
             sendTxRequestStatus r TXSTATUS_OK ''''])"
  using assms by (simp add: dequeueTxRequest_def)

lemma dequeueTxRequest_guarded:
  assumes "m_tx_request s = Some r" and "\<not> hasValidMSN r \<or> getMSN r \<noteq> Some msn"
  shows "dequeueTxRequest msn s = (s, [])"
  using assms by (auto simp: dequeueTxRequest_def)

lemma invalidateTxRequest_guarded:
  assumes "m_tx_request s = Some r" and "\<not> hasValidMSN r \<or> getMSN r \<noteq> Some msn"
  shows "invalidateTxRequest msn e s = (s, [])"
  using assms by (auto simp: invalidateTxRequest_def)

lemma resolve_again_after_dequeue:
  "dequeueTxRequest k (fst (dequeueTxRequest k t)) = (fst (dequeueTxRequest k t), [])"
  "invalidateTxRequest k e (fst (dequeueTxRequest k t)) = (fst (dequeueTxRequest k t), [])"
  by (cases "m_tx_request t"; simp add: dequeueTxRequest_def invalidateTxRequest_def)+

lemma resolve_again_after_invalidate:
  "dequeueTxRequest k (fst (invalidateTxRequest k e t)) = (fst (invalidateTxRequest k e t), [])"
  "invalidateTxRequest k e' (fst (invalidateTxRequest k e t)) = (fst (invalidateTxRequest k e t), [])"
  by (cases "m_tx_request t";
      simp add: dequeueTxRequest_def invalidateTxRequest_def enqueueTxRequest_def Let_def)+

lemma overtaking:
  assumes "y \<in> set q" and "getTimeToLive x < getTimeToLive y"
  shows "\<exists>pre post. enqueue_loop x q = pre @ x # post \<and> y \<in> set post"
proof -
  let ?P = "\<lambda>z. getTimeToLive z \<le> getTimeToLive x"
  have "y \<notin> set (takeWhile ?P q)"
    using assms(2) by (auto dest: set_takeWhileD)
  moreover have "set q = set (takeWhile ?P q) \<union> set (dropWhile ?P q)"
    using takeWhile_dropWhile_id [of ?P q] by (metis set_append)
  ultimately have "y \<in> set (dropWhile ?P q)"
    using assms(1) by auto
  then show ?thesis
    using enqueue_loop_split [of x q] by blast
qed

subsection \<open>Decimal text of an unsigned value\<close>

lemma digit_cases:
  assumes "d < 10"
  shows "d = 0 \<or> d = 1 \<or> d = 2 \<or> d = 3 \<or> d = 4 \<or> d = 5 \<or> d = 6 \<or> d = 7 \<or> d = 8 \<or>
         d = (9::nat)"
  using assms by arith

lemma digit_value_digit_char: "d < 10 \<Longrightarrow> digit_value (digit_char d) = d"
  using digit_cases [of d] by (auto simp: digit_value_def digit_char_def)

lemma digit_char_is_digit: "d < 10 \<Longrightarrow> digit_char d \<in> set ''0123456789''"
  using digit_cases [of d] by (auto simp: digit_char_def)

lemma digit_char_zero: "d < 10 \<Longrightarrow> digit_char d = CHR ''0'' \<Longrightarrow> d = 0"
  using digit_cases [of d] by (auto simp: digit_char_def)

lemma decimal_value_snoc:
  "decimal_value (ds @ [c]) = 10 * decimal_value ds + digit_value c"
  by (simp add: decimal_value_def)

lemma decimal_value_str_unsigned: "decimal_value (str_unsigned n) = n"
proof (induction n rule: str_unsigned.induct)
  case (1 n)
  show ?case
  proof (cases "n < 10")
    case True
    then have "str_unsigned n = [digit_char n]"
      by simp
    with True show ?thesis
      by (simp add: decimal_value_def digit_value_digit_char)
  next
    case False
    then have s: "str_unsigned n = str_unsigned (n div 10) @ [digit_char (n mod 10)]"
      by (subst str_unsigned.simps) simp
    have "decimal_value (str_unsigned n) =
        10 * decimal_value (str_unsigned (n div 10)) + digit_value (digit_char (n mod 10))"
      by (simp only: s decimal_value_snoc)
    also have "\<dots> = 10 * (n div 10) + n mod 10"
      using "1.IH" [OF False] by (simp add: digit_value_digit_char)
    also have "\<dots> = n"
      by simp
    finally show ?thesis .
  qed
qed

lemma str_unsigned_digits: "set (str_unsigned n) \<subseteq> set ''0123456789''"
proof (induction n rule: str_unsigned.induct)
  case (1 n)
  show ?case
  proof (cases "n < 10")
    case True
    then have "str_unsigned n = [digit_char n]"
      by simp
    with digit_char_is_digit [OF True] show ?thesis
      by simp
  next
    case False
    then have s: "str_unsigned n = str_unsigned (n div 10) @ [digit_char (n mod 10)]"
      by (subst str_unsigned.simps) simp
    have "digit_char (n mod 10) \<in> set ''0123456789''"
      by (rule digit_char_is_digit) simp
    with "1.IH" [OF False] show ?thesis
      by (simp only: s set_append) auto
  qed
qed

lemma str_unsigned_nonempty: "str_unsigned n \<noteq> []"
  by (subst str_unsigned.simps) simp

lemma str_unsigned_no_leading_zero:
  "str_unsigned n = ''0'' \<or> hd (str_unsigned n) \<noteq> CHR ''0''"
proof (induction n rule: str_unsigned.induct)
  case (1 n)
  show ?case
  proof (cases "n < 10")
    case True
    then have s: "str_unsigned n = [digit_char n]"
      by simp
    show ?thesis
    proof (cases "n = 0")
      case True
      then show ?thesis by (simp add: digit_char_def)
    next
      case False
      with digit_char_zero [OF \<open>n < 10\<close>] have "digit_char n \<noteq> CHR ''0''"
        by blast
      then show ?thesis by (simp only: s list.sel) simp
    qed
  next
    case False
    then have s: "str_unsigned n = str_unsigned (n div 10) @ [digit_char (n mod 10)]"
      by (subst str_unsigned.simps) simp
    have h: "hd (str_unsigned n) = hd (str_unsigned (n div 10))"
      by (simp only: s) (simp add: str_unsigned_nonempty del: str_unsigned.simps)
    have "str_unsigned (n div 10) \<noteq> ''0''"
    proof
      assume "str_unsigned (n div 10) = ''0''"
      then have "decimal_value (str_unsigned (n div 10)) = decimal_value ''0''"
        by (simp only:)
      then have "n div 10 = 0"
        by (simp only: decimal_value_str_unsigned) (simp add: decimal_value_def digit_value_def)
      with False show False by simp
    qed
    with "1.IH" [OF False] h show ?thesis
      by simp
  qed
qed

text \<open>
  C5. A session result that reports MO failure and carries the sequence number of the
  active request, whose sequence number is valid: \<open>handleSessionResult\<close> marks the
  request's sequence number invalid (nothing else of the request changes, its time to
  live included), reports one ERROR status to the request's origin whose text ends in
  the decimal digits of the driver's MO status code, puts the request back into the
  queue at the place its time to live gives it, and clears the active slot. A request
  with a strictly smaller time to live that is queued afterwards stands before it.
  The text is "failed with error " followed by a non-empty string of decimal digits
  without a leading zero (but for the code 0) that, read as a decimal numeral, is the
  status code.
\<close>

theorem failed_session_requeues_active_request:
  assumes "m_tx_request s = Some r" and "hasValidMSN r"
    and "getMSN r = Some (getSequenceMO (getSessionResult drv))"
    and "\<not> isSuccessMO (getSessionResult drv)"
  shows "m_tx_request (fst (handleSessionResult drv s)) = None \<and>
         m_tx_requests (fst (handleSessionResult drv s)) =
           takeWhile (\<lambda>x. getTimeToLive x \<le> getTimeToLive r) (m_tx_requests s) @
           r\<lparr>sequence_number_valid := False\<rparr> #
           dropWhile (\<lambda>x. getTimeToLive x \<le> getTimeToLive r) (m_tx_requests s) \<and>
         \<not> hasValidMSN (r\<lparr>sequence_number_valid := False\<rparr>) \<and>
         getTimeToLive (r\<lparr>sequence_number_valid := False\<rparr>) = getTimeToLive r \<and>
         statuses_of (snd (handleSessionResult drv s)) =
           [\<lparr>st_destination = getSource r, st_destination_entity = getSourceEntity r,
             st_req_id = getId r, st_status = TXSTATUS_ERROR,
             st_text = ''failed with error '' @
               str_unsigned (unat (getStatusMO (getSessionResult drv)))\<rparr>] \<and>
         (\<exists>ds. map st_text (statuses_of (snd (handleSessionResult drv s))) =
                 [''failed with error '' @ ds] \<and>
               ds \<noteq> [] \<and> set ds \<subseteq> set ''0123456789'' \<and>
               (ds = ''0'' \<or> hd ds \<noteq> CHR ''0'') \<and>
               decimal_value ds = unat (getStatusMO (getSessionResult drv))) \<and>
         (\<forall>x. getTimeToLive x < getTimeToLive r \<longrightarrow>
            (\<exists>pre post.
               m_tx_requests (enqueueTxRequest x (fst (handleSessionResult drv s))) =
                 pre @ x # post \<and>
               r\<lparr>sequence_number_valid := False\<rparr> \<in> set post))"
proof -
  let ?r' = "r\<lparr>sequence_number_valid := False\<rparr>"
  let ?res = "getSessionResult drv"
  have inv: "invalidateMSN r = ?r'"
    by (simp add: invalidateMSN_def)
  have ttl: "getTimeToLive ?r' = getTimeToLive r"
    by (simp add: getTimeToLive_def)
  have step: "invalidateTxRequest (getSequenceMO ?res) (getStatusMO ?res) s =
      (s\<lparr>m_tx_requests := enqueue_loop ?r' (m_tx_requests s), m_tx_request := None\<rparr>,
       [Log_debug ''invalidating MSN'',
        sendTxRequestStatus ?r' TXSTATUS_ERROR
          (''failed with error '' @ str_unsigned (unat (getStatusMO ?res)))])"
    using invalidateTxRequest_match [OF assms(1,2,3)] by (simp only: inv)
  have slot: "m_tx_request (fst (handleSessionResult drv s)) = None"
    using assms(4) by (simp add: handleSessionResult_fst step)
  have queue: "m_tx_requests (fst (handleSessionResult drv s)) =
      enqueue_loop ?r' (m_tx_requests s)"
    using assms(4) by (simp add: handleSessionResult_fst step)
  have split: "enqueue_loop ?r' (m_tx_requests s) =
      takeWhile (\<lambda>x. getTimeToLive x \<le> getTimeToLive r) (m_tx_requests s) @ ?r' #
      dropWhile (\<lambda>x. getTimeToLive x \<le> getTimeToLive r) (m_tx_requests s)"
    using enqueue_loop_split [of ?r' "m_tx_requests s"] by (simp only: ttl)
  have stat: "statuses_of (snd (handleSessionResult drv s)) =
      [\<lparr>st_destination = getSource r, st_destination_entity = getSourceEntity r,
        st_req_id = getId r, st_status = TXSTATUS_ERROR,
        st_text = ''failed with error '' @ str_unsigned (unat (getStatusMO ?res))\<rparr>]"
    using assms(4)
    by (simp add: handleSessionResult_snd step statuses_of_append statuses_of_handleSBD
          sendTxRequestStatus_def getSource_def getSourceEntity_def getId_def
          del: str_unsigned.simps)
  have over: "\<exists>pre post.
      m_tx_requests (enqueueTxRequest x (fst (handleSessionResult drv s))) = pre @ x # post \<and>
      ?r' \<in> set post"
    if "getTimeToLive x < getTimeToLive r" for x
  proof -
    have "?r' \<in> set (m_tx_requests (fst (handleSessionResult drv s)))"
      by (simp add: queue enqueue_loop_set)
    moreover have "getTimeToLive x < getTimeToLive ?r'"
      using that by (simp only: ttl)
    ultimately show ?thesis
      using overtaking [of ?r' "m_tx_requests (fst (handleSessionResult drv s))" x]
      by (simp add: enqueueTxRequest_def)
  qed
  have valid: "\<not> hasValidMSN ?r'"
    by (simp add: hasValidMSN_def)
  have digits: "\<exists>ds. map st_text (statuses_of (snd (handleSessionResult drv s))) =
        [''failed with error '' @ ds] \<and>
      ds \<noteq> [] \<and> set ds \<subseteq> set ''0123456789'' \<and>
      (ds = ''0'' \<or> hd ds \<noteq> CHR ''0'') \<and>
      decimal_value ds = unat (getStatusMO ?res)"
  proof (intro exI conjI)
    show "map st_text (statuses_of (snd (handleSessionResult drv s))) =
        [''failed with error '' @ str_unsigned (unat (getStatusMO ?res))]"
      by (simp only: stat) (simp del: str_unsigned.simps)
    show "str_unsigned (unat (getStatusMO ?res)) \<noteq> []"
      by (rule str_unsigned_nonempty)
    show "set (str_unsigned (unat (getStatusMO ?res))) \<subseteq> set ''0123456789''"
      by (rule str_unsigned_digits)
    show "str_unsigned (unat (getStatusMO ?res)) = ''0'' \<or>
        hd (str_unsigned (unat (getStatusMO ?res))) \<noteq> CHR ''0''"
      by (rule str_unsigned_no_leading_zero)
    show "decimal_value (str_unsigned (unat (getStatusMO ?res))) = unat (getStatusMO ?res)"
      by (rule decimal_value_str_unsigned)
  qed
  from slot queue [unfolded split] valid ttl stat digits over show ?thesis
    by blast
qed

theorem failed_session_requeues_active_request_witness:
  "m_tx_request (fst (handleSessionResult
      (example_driver\<lparr>hasSessionResult := True, getSessionResult := example_result False 42 7 0\<rparr>)
      (example_task [example_request 1 3 [1]] (Some (setMSN 42 (example_request 2 5 [2])))))) = None \<and>
   m_tx_requests (fst (handleSessionResult
      (example_driver\<lparr>hasSessionResult := True, getSessionResult := example_result False 42 7 0\<rparr>)
      (example_task [example_request 1 3 [1]] (Some (setMSN 42 (example_request 2 5 [2])))))) =
     [example_request 1 3 [1],
      (example_request 2 5 [2])\<lparr>assigned_sequence_number := Some 42\<rparr>] \<and>
   statuses_of (snd (handleSessionResult
      (example_driver\<lparr>hasSessionResult := True, getSessionResult := example_result False 42 7 0\<rparr>)
      (example_task [example_request 1 3 [1]] (Some (setMSN 42 (example_request 2 5 [2])))))) =
     [\<lparr>st_destination = 10, st_destination_entity = 20, st_req_id = 2,
       st_status = TXSTATUS_ERROR, st_text = ''failed with error 7''\<rparr>] \<and>
   (\<exists>pre post.
      m_tx_requests (enqueueTxRequest (example_request 3 4 [3]) (fst (handleSessionResult
        (example_driver\<lparr>hasSessionResult := True, getSessionResult := example_result False 42 7 0\<rparr>)
        (example_task [example_request 1 3 [1]] (Some (setMSN 42 (example_request 2 5 [2]))))))) =
        pre @ example_request 3 4 [3] # post \<and>
      (example_request 2 5 [2])\<lparr>assigned_sequence_number := Some 42\<rparr> \<in> set post) \<and>
   statuses_of (snd (handleSessionResult
      (example_driver\<lparr>hasSessionResult := True, getSessionResult := example_result False 42 1207 0\<rparr>)
      (example_task [example_request 1 3 [1]] (Some (setMSN 42 (example_request 2 5 [2])))))) =
     [\<lparr>st_destination = 10, st_destination_entity = 20, st_req_id = 2,
       st_status = TXSTATUS_ERROR, st_text = ''failed with error 1207''\<rparr>] \<and>
   (\<exists>ds. map st_text (statuses_of (snd (handleSessionResult
        (example_driver\<lparr>hasSessionResult := True, getSessionResult := example_result False 42 1207 0\<rparr>)
        (example_task [example_request 1 3 [1]] (Some (setMSN 42 (example_request 2 5 [2]))))))) =
          [''failed with error '' @ ds] \<and>
        ds \<noteq> [] \<and> set ds \<subseteq> set ''0123456789'' \<and>
        (ds = ''0'' \<or> hd ds \<noteq> CHR ''0'') \<and> decimal_value ds = 1207)"
proof -
  let ?drv = "example_driver\<lparr>hasSessionResult := True,
      getSessionResult := example_result False 42 7 0\<rparr>"
  let ?drv2 = "example_driver\<lparr>hasSessionResult := True,
      getSessionResult := example_result False 42 1207 0\<rparr>"
  let ?r = "setMSN 42 (example_request 2 5 [2])"
  let ?s = "example_task [example_request 1 3 [1]] (Some ?r)"
  have h1: "m_tx_request ?s = Some ?r"
    by (simp add: example_task_def)
  have h2: "hasValidMSN ?r"
    by (simp add: hasValidMSN_def setMSN_def)
  have h3: "getMSN ?r = Some (getSequenceMO (getSessionResult ?drv))"
    by (simp add: getMSN_def setMSN_def example_driver_def example_result_def)
  have h4: "\<not> isSuccessMO (getSessionResult ?drv)"
    by (simp add: example_driver_def example_result_def)
  have r': "?r\<lparr>sequence_number_valid := False\<rparr> =
      (example_request 2 5 [2])\<lparr>assigned_sequence_number := Some 42\<rparr>"
    by (simp add: setMSN_def example_request_def TxRequest_new_def)
  have q: "takeWhile (\<lambda>x. getTimeToLive x \<le> getTimeToLive ?r) (m_tx_requests ?s) @
      (example_request 2 5 [2])\<lparr>assigned_sequence_number := Some 42\<rparr> #
      dropWhile (\<lambda>x. getTimeToLive x \<le> getTimeToLive ?r) (m_tx_requests ?s) =
      [example_request 1 3 [1], (example_request 2 5 [2])\<lparr>assigned_sequence_number := Some 42\<rparr>]"
    by (simp add: example_task_def example_request_def TxRequest_new_def getTimeToLive_def
          setMSN_def)
  have f: "getSource ?r = 10" "getSourceEntity ?r = 20" "getId ?r = 2"
    by (simp_all add: example_request_def TxRequest_new_def getSource_def getSourceEntity_def
          getId_def setMSN_def)
  have errtext: "''failed with error '' @ str_unsigned (unat (getStatusMO (getSessionResult ?drv))) =
      ''failed with error 7''"
    by (simp add: example_driver_def example_result_def digit_char_def)
  have lt: "getTimeToLive (example_request 3 4 [3]) < getTimeToLive ?r"
    by (simp add: example_request_def TxRequest_new_def getTimeToLive_def setMSN_def)
  note T = failed_session_requeues_active_request [OF h1 h2 h3 h4, unfolded r' q f errtext]
  from T have c1: "m_tx_request (fst (handleSessionResult ?drv ?s)) = None"
    by (rule conjunct1)
  from T have c2: "m_tx_requests (fst (handleSessionResult ?drv ?s)) =
      [example_request 1 3 [1], (example_request 2 5 [2])\<lparr>assigned_sequence_number := Some 42\<rparr>]"
    by (elim conjE)
  from T have c3: "statuses_of (snd (handleSessionResult ?drv ?s)) =
      [\<lparr>st_destination = 10, st_destination_entity = 20, st_req_id = 2,
        st_status = TXSTATUS_ERROR, st_text = ''failed with error 7''\<rparr>]"
    by (elim conjE)
  from T have "\<forall>x. getTimeToLive x < getTimeToLive ?r \<longrightarrow>
      (\<exists>pre post.
         m_tx_requests (enqueueTxRequest x (fst (handleSessionResult ?drv ?s))) = pre @ x # post \<and>
         (example_request 2 5 [2])\<lparr>assigned_sequence_number := Some 42\<rparr> \<in> set post)"
    by (elim conjE)
  with lt have c4: "\<exists>pre post.
      m_tx_requests (enqueueTxRequest (example_request 3 4 [3])
        (fst (handleSessionResult ?drv ?s))) = pre @ example_request 3 4 [3] # post \<and>
      (example_request 2 5 [2])\<lparr>assigned_sequence_number := Some 42\<rparr> \<in> set post"
    by blast
  have k3: "getMSN ?r = Some (getSequenceMO (getSessionResult ?drv2))"
    by (simp add: getMSN_def setMSN_def example_driver_def example_result_def)
  have k4: "\<not> isSuccessMO (getSessionResult ?drv2)"
    by (simp add: example_driver_def example_result_def)
  have code2: "unat (getStatusMO (getSessionResult ?drv2)) = 1207"
    by (simp add: example_driver_def example_result_def)
  have errtext2: "''failed with error '' @ str_unsigned 1207 = ''failed with error 1207''"
    by (simp add: digit_char_def)
  note T2 = failed_session_requeues_active_request [OF h1 h2 k3 k4, unfolded r' q f code2]
  have c5: "statuses_of (snd (handleSessionResult ?drv2 ?s)) =
      [\<lparr>st_destination = 10, st_destination_entity = 20, st_req_id = 2,
        st_status = TXSTATUS_ERROR, st_text = ''failed with error 1207''\<rparr>]"
    using T2 [THEN conjunct2, THEN conjunct2, THEN conjunct2, THEN conjunct2, THEN conjunct1]
    by (simp only: errtext2)
  have c6: "\<exists>ds. map st_text (statuses_of (snd (handleSessionResult ?drv2 ?s))) =
        [''failed with error '' @ ds] \<and>
      ds \<noteq> [] \<and> set ds \<subseteq> set ''0123456789'' \<and>
      (ds = ''0'' \<or> hd ds \<noteq> CHR ''0'') \<and> decimal_value ds = 1207"
    by (rule T2 [THEN conjunct2, THEN conjunct2, THEN conjunct2, THEN conjunct2,
          THEN conjunct2, THEN conjunct1])
  from c1 c2 c3 c4 c5 c6 show ?thesis
    by (intro conjI)
qed

text \<open>
  C6 (as the code has it). A session result that arrives while there is no active
  request leaves the request queue and the active slot as they are and reports no
  status. The rest of the handling still runs: the mailbox-check timer is reset when the
  result reports MO success, and inbound handling is performed when the result's MT
  status is 1; nothing else is done.
\<close>

theorem result_without_active_request:
  assumes "m_tx_request s = None"
  shows "m_tx_requests (fst (handleSessionResult drv s)) = m_tx_requests s \<and>
         m_tx_request (fst (handleSessionResult drv s)) = None \<and>
         statuses_of (snd (handleSessionResult drv s)) = [] \<and>
         m_mbox_check_timer (fst (handleSessionResult drv s)) =
           (if isSuccessMO (getSessionResult drv)
            then Counter_reset (clock_now drv) (m_mbox_check_timer s)
            else m_mbox_check_timer s) \<and>
         snd (handleSessionResult drv s) =
           (if getStatusMT (getSessionResult drv) = 1 then handleSBD drv else [])"
  using assms
  by (simp add: handleSessionResult_fst handleSessionResult_snd dequeueTxRequest_idle
        invalidateTxRequest_idle statuses_of_handleSBD)

theorem result_without_active_request_witness:
  "m_tx_requests (fst (handleSessionResult
      (example_driver\<lparr>hasSessionResult := True, getSessionResult := example_result False 42 7 0\<rparr>)
      (example_task [example_request 1 3 [1]] None))) = [example_request 1 3 [1]] \<and>
   m_tx_request (fst (handleSessionResult
      (example_driver\<lparr>hasSessionResult := True, getSessionResult := example_result False 42 7 0\<rparr>)
      (example_task [example_request 1 3 [1]] None))) = None \<and>
   statuses_of (snd (handleSessionResult
      (example_driver\<lparr>hasSessionResult := True, getSessionResult := example_result False 42 7 0\<rparr>)
      (example_task [example_request 1 3 [1]] None))) = [] \<and>
   m_mbox_check_timer (fst (handleSessionResult
      (example_driver\<lparr>hasSessionResult := True, getSessionResult := example_result False 42 7 0\<rparr>)
      (example_task [example_request 1 3 [1]] None))) = example_counter \<and>
   snd (handleSessionResult
      (example_driver\<lparr>hasSessionResult := True, getSessionResult := example_result False 42 7 0\<rparr>)
      (example_task [example_request 1 3 [1]] None)) = []"
proof -
  let ?drv = "example_driver\<lparr>hasSessionResult := True,
      getSessionResult := example_result False 42 7 0\<rparr>"
  let ?s = "example_task [example_request 1 3 [1]] None"
  have h: "m_tx_request ?s = None"
    by (simp add: example_task_def)
  have e: "m_tx_requests ?s = [example_request 1 3 [1]]"
    "m_mbox_check_timer ?s = example_counter"
    "isSuccessMO (getSessionResult ?drv) = False"
    "(getStatusMT (getSessionResult ?drv) = 1) = False"
    by (simp_all add: example_task_def example_driver_def example_result_def)
  show ?thesis
    by (rule result_without_active_request [OF h, of ?drv, unfolded e if_False])
qed

theorem result_without_active_request_counterexample:
  "m_tx_request (example_task [] None) = None \<and>
   m_mbox_check_timer (fst (handleSessionResult
      (example_driver\<lparr>hasSessionResult := True, getSessionResult := example_result True 42 0 1,
         bufferMT := [0x00, 0x01, 0xAA, 0xBB, 0xCC]\<rparr>)
      (example_task [] None))) \<noteq> m_mbox_check_timer (example_task [] None) \<and>
   inbound_of (snd (handleSessionResult
      (example_driver\<lparr>hasSessionResult := True, getSessionResult := example_result True 42 0 1,
         bufferMT := [0x00, 0x01, 0xAA, 0xBB, 0xCC]\<rparr>)
      (example_task [] None))) =
     [\<lparr>rx_source = 1, rx_destination = 99, rx_data = [0xAA, 0xBB, 0xCC]\<rparr>]"
  by (simp add: handleSessionResult_def dequeueTxRequest_def handleSBD_def readBufferMT_def
        example_task_def example_driver_def example_result_def example_counter_def
        Counter_reset_def Let_def)

text \<open>
  C7. A session result whose MO sequence number is not the one assigned to the active
  request, or that meets an active request whose sequence number was invalidated,
  leaves the request queue and the active slot unchanged and reports no status:
  \<open>dequeueTxRequest\<close> (confirm) and \<open>invalidateTxRequest\<close> (invalidate) return
  without any effect. Hence resolving the same sequence number a second time, by either
  of the two, changes nothing and reports nothing.
\<close>

theorem unmatched_result_changes_nothing:
  assumes "m_tx_request s = Some r"
    and "\<not> hasValidMSN r \<or> getMSN r \<noteq> Some msn"
  shows "dequeueTxRequest msn s = (s, []) \<and>
         invalidateTxRequest msn e s = (s, []) \<and>
         (getSequenceMO (getSessionResult drv) = msn \<longrightarrow>
            m_tx_requests (fst (handleSessionResult drv s)) = m_tx_requests s \<and>
            m_tx_request (fst (handleSessionResult drv s)) = m_tx_request s \<and>
            statuses_of (snd (handleSessionResult drv s)) = []) \<and>
         dequeueTxRequest k (fst (dequeueTxRequest k t)) = (fst (dequeueTxRequest k t), []) \<and>
         invalidateTxRequest k e (fst (dequeueTxRequest k t)) = (fst (dequeueTxRequest k t), []) \<and>
         dequeueTxRequest k (fst (invalidateTxRequest k e t)) =
           (fst (invalidateTxRequest k e t), []) \<and>
         invalidateTxRequest k e (fst (invalidateTxRequest k e t)) =
           (fst (invalidateTxRequest k e t), [])"
proof -
  have d: "dequeueTxRequest msn s' = (s', [])" if "m_tx_request s' = Some r" for s'
    using that assms(2) by (rule dequeueTxRequest_guarded)
  have i: "invalidateTxRequest msn e' s = (s, [])" for e'
    using assms by (rule invalidateTxRequest_guarded)
  have h: "m_tx_requests (fst (handleSessionResult drv s)) = m_tx_requests s \<and>
      m_tx_request (fst (handleSessionResult drv s)) = m_tx_request s \<and>
      statuses_of (snd (handleSessionResult drv s)) = []"
    if "getSequenceMO (getSessionResult drv) = msn"
  proof (cases "isSuccessMO (getSessionResult drv)")
    case True
    let ?s' = "s\<lparr>m_mbox_check_timer := Counter_reset (clock_now drv) (m_mbox_check_timer s)\<rparr>"
    have "dequeueTxRequest msn ?s' = (?s', [])"
      by (rule d) (simp add: assms(1))
    with True that show ?thesis
      by (simp add: handleSessionResult_fst handleSessionResult_snd statuses_of_handleSBD)
  next
    case False
    with i that show ?thesis
      by (simp add: handleSessionResult_fst handleSessionResult_snd statuses_of_handleSBD)
  qed
  from d [OF assms(1)] i [of e] h
    resolve_again_after_dequeue(1) [of k t] resolve_again_after_dequeue(2) [of k e t]
    resolve_again_after_invalidate(1) [of k e t] resolve_again_after_invalidate(2) [of k e e t]
  show ?thesis by blast
qed

theorem unmatched_result_changes_nothing_witness:
  "dequeueTxRequest 43 (example_task [example_request 1 3 [1]]
       (Some (setMSN 42 (example_request 2 5 [2])))) =
     (example_task [example_request 1 3 [1]] (Some (setMSN 42 (example_request 2 5 [2]))), []) \<and>
   invalidateTxRequest 43 7 (example_task [example_request 1 3 [1]]
       (Some (setMSN 42 (example_request 2 5 [2])))) =
     (example_task [example_request 1 3 [1]] (Some (setMSN 42 (example_request 2 5 [2]))), []) \<and>
   m_tx_requests (fst (handleSessionResult
       (example_driver\<lparr>hasSessionResult := True, getSessionResult := example_result False 43 7 0\<rparr>)
       (example_task [example_request 1 3 [1]] (Some (setMSN 42 (example_request 2 5 [2])))))) =
     [example_request 1 3 [1]] \<and>
   m_tx_request (fst (handleSessionResult
       (example_driver\<lparr>hasSessionResult := True, getSessionResult := example_result False 43 7 0\<rparr>)
       (example_task [example_request 1 3 [1]] (Some (setMSN 42 (example_request 2 5 [2])))))) =
     Some (setMSN 42 (example_request 2 5 [2])) \<and>
   statuses_of (snd (handleSessionResult
       (example_driver\<lparr>hasSessionResult := True, getSessionResult := example_result False 43 7 0\<rparr>)
       (example_task [example_request 1 3 [1]] (Some (setMSN 42 (example_request 2 5 [2])))))) = []"
proof -
  let ?drv = "example_driver\<lparr>hasSessionResult := True,
      getSessionResult := example_result False 43 7 0\<rparr>"
  let ?r = "setMSN 42 (example_request 2 5 [2])"
  let ?s = "example_task [example_request 1 3 [1]] (Some ?r)"
  have h1: "m_tx_request ?s = Some ?r"
    by (simp add: example_task_def)
  have h2: "\<not> hasValidMSN ?r \<or> getMSN ?r \<noteq> Some 43"
    by (simp add: getMSN_def setMSN_def)
  have h3: "getSequenceMO (getSessionResult ?drv) = 43"
    by (simp add: example_driver_def example_result_def)
  have q: "m_tx_requests ?s = [example_request 1 3 [1]]"
    by (simp add: example_task_def)
  note T = unmatched_result_changes_nothing [OF h1 h2, of 7 ?drv, unfolded h1 q]
  from T have c1: "dequeueTxRequest 43 ?s = (?s, [])"
    by (rule conjunct1)
  have c2: "invalidateTxRequest 43 7 ?s = (?s, [])"
    by (rule T [THEN conjunct2, THEN conjunct1])
  have c3: "m_tx_requests (fst (handleSessionResult ?drv ?s)) = [example_request 1 3 [1]] \<and>
      m_tx_request (fst (handleSessionResult ?drv ?s)) = Some ?r \<and>
      statuses_of (snd (handleSessionResult ?drv ?s)) = []"
    by (rule T [THEN conjunct2, THEN conjunct2, THEN conjunct1, THEN mp, OF h3])
  from c1 c2 c3 show ?thesis
    by (simp only: simp_thms)
qed

subsection \<open>Inbound messages\<close>

lemma be16_add:
  "(push_bit 8 (ucast (a::u8)) OR ucast (b::u8) :: u16) = push_bit 8 (ucast a) + ucast b"
  using word_cat_eq_push_bit_or [of a b, where ?'c = 16] word_cat_eq [of a b, where ?'c = 16]
  by simp

lemma unat_be16:
  "unat (push_bit 8 (ucast (a::u8)) OR ucast (b::u8) :: u16) = 256 * unat a + unat b"
proof -
  have a: "unat a < 256" and b: "unat b < 256"
    using unsigned_less [of a, where ?'a = nat] unsigned_less [of b, where ?'a = nat]
    by simp_all
  have ua: "unat (ucast a :: u16) = unat a" and ub: "unat (ucast b :: u16) = unat b"
    using a b by (simp_all add: unsigned_ucast_eq take_bit_nat_eq_self_iff)
  have "unat (push_bit 8 (ucast a) + ucast b :: u16) =
          (unat (ucast a :: u16) * 256 + unat (ucast b :: u16)) mod 65536"
    by (simp add: push_bit_eq_mult unat_word_ariths mod_simps)
  also have "\<dots> = 256 * unat a + unat b"
    using a b by (simp add: ua ub)
  finally show ?thesis by (simp add: be16_add)
qed

lemma handleSBD_long:
  assumes "2 < length (readBufferMT drv 340)"
  shows "handleSBD drv =
    [Drv_readBufferMT 340,
     Log_toText \<lparr>rx_source = push_bit 8 (ucast (readBufferMT drv 340 ! 0)) OR
                     ucast (readBufferMT drv 340 ! 1),
                 rx_destination = getSystemId drv,
                 rx_data = drop 2 (readBufferMT drv 340)\<rparr>,
     Dispatch_MsgRx \<lparr>rx_source = push_bit 8 (ucast (readBufferMT drv 340 ! 0)) OR
                         ucast (readBufferMT drv 340 ! 1),
                     rx_destination = getSystemId drv,
                     rx_data = drop 2 (readBufferMT drv 340)\<rparr> True]"
  using assms by (simp add: handleSBD_def Let_def)

lemma handleSBD_short:
  assumes "length (readBufferMT drv 340) \<le> 2"
  shows "handleSBD drv =
    [Drv_readBufferMT 340,
     Log_err (''invalid SBD message of size '' @ str_unsigned (length (readBufferMT drv 340)))]"
  using assms by (simp add: handleSBD_def Let_def del: str_unsigned.simps)

text \<open>
  C8. \<open>handleSBD\<close> reads up to 340 bytes of the mobile-terminated buffer. When the read
  yields more than two bytes, exactly one inbound message is dispatched (keeping the
  source entity): its source address is the first byte times 256 plus the second byte,
  its destination is this system, its payload is the bytes after the first two; no
  error is logged. When the read yields two bytes or fewer, no message is dispatched
  and the error "invalid SBD message of size n" is logged. A read of the five bytes
  00 01 AA BB CC gives source address 1 and payload AA BB CC.
\<close>

theorem inbound_message_from_buffer:
  "(2 < length (readBufferMT drv 340) \<longrightarrow>
      (\<exists>m. inbound_of (handleSBD drv) = [m] \<and>
           Dispatch_MsgRx m True \<in> set (handleSBD drv) \<and>
           unat (rx_source m) =
             256 * unat (readBufferMT drv 340 ! 0) + unat (readBufferMT drv 340 ! 1) \<and>
           rx_destination m = getSystemId drv \<and>
           rx_data m = drop 2 (readBufferMT drv 340)) \<and>
      (\<forall>e. Log_err e \<notin> set (handleSBD drv))) \<and>
   (length (readBufferMT drv 340) \<le> 2 \<longrightarrow>
      inbound_of (handleSBD drv) = [] \<and>
      Log_err (''invalid SBD message of size '' @
          str_unsigned (length (readBufferMT drv 340))) \<in> set (handleSBD drv)) \<and>
   (readBufferMT drv 340 = [0x00, 0x01, 0xAA, 0xBB, 0xCC] \<longrightarrow>
      inbound_of (handleSBD drv) =
        [\<lparr>rx_source = 1, rx_destination = getSystemId drv, rx_data = [0xAA, 0xBB, 0xCC]\<rparr>])"
proof (intro conjI impI)
  assume long: "2 < length (readBufferMT drv 340)"
  let ?m = "\<lparr>rx_source = push_bit 8 (ucast (readBufferMT drv 340 ! 0)) OR
                  ucast (readBufferMT drv 340 ! 1),
              rx_destination = getSystemId drv,
              rx_data = drop 2 (readBufferMT drv 340)\<rparr>"
  have "inbound_of (handleSBD drv) = [?m]"
    and "Dispatch_MsgRx ?m True \<in> set (handleSBD drv)"
    by (simp_all add: handleSBD_long [OF long])
  moreover have "unat (rx_source ?m) =
      256 * unat (readBufferMT drv 340 ! 0) + unat (readBufferMT drv 340 ! 1)"
    by (simp add: unat_be16)
  ultimately show "\<exists>m. inbound_of (handleSBD drv) = [m] \<and>
           Dispatch_MsgRx m True \<in> set (handleSBD drv) \<and>
           unat (rx_source m) =
             256 * unat (readBufferMT drv 340 ! 0) + unat (readBufferMT drv 340 ! 1) \<and>
           rx_destination m = getSystemId drv \<and>
           rx_data m = drop 2 (readBufferMT drv 340)"
    by (intro exI [of _ ?m]) simp
  show "\<forall>e. Log_err e \<notin> set (handleSBD drv)"
    by (simp add: handleSBD_long [OF long])
next
  assume short: "length (readBufferMT drv 340) \<le> 2"
  show "inbound_of (handleSBD drv) = []"
    by (simp add: handleSBD_short [OF short] del: str_unsigned.simps)
  show "Log_err (''invalid SBD message of size '' @
          str_unsigned (length (readBufferMT drv 340))) \<in> set (handleSBD drv)"
    by (simp add: handleSBD_short [OF short] del: str_unsigned.simps)
next
  assume "readBufferMT drv 340 = [0x00, 0x01, 0xAA, 0xBB, 0xCC]"
  then show "inbound_of (handleSBD drv) =
        [\<lparr>rx_source = 1, rx_destination = getSystemId drv, rx_data = [0xAA, 0xBB, 0xCC]\<rparr>]"
    by (simp add: handleSBD_def Let_def)
qed

theorem inbound_message_from_buffer_witness:
  "inbound_of (handleSBD (example_driver\<lparr>bufferMT := [0x00, 0x01, 0xAA, 0xBB, 0xCC]\<rparr>)) =
     [\<lparr>rx_source = 1, rx_destination = 99, rx_data = [0xAA, 0xBB, 0xCC]\<rparr>] \<and>
   (\<exists>m. inbound_of (handleSBD (example_driver\<lparr>bufferMT := [0x00, 0x01, 0xAA, 0xBB, 0xCC]\<rparr>)) = [m] \<and>
        unat (rx_source m) = 1 \<and> rx_destination m = 99 \<and> rx_data m = [0xAA, 0xBB, 0xCC]) \<and>
   inbound_of (handleSBD (example_driver\<lparr>bufferMT := [0x12, 0x34]\<rparr>)) = [] \<and>
   Log_err ''invalid SBD message of size 2'' \<in>
     set (handleSBD (example_driver\<lparr>bufferMT := [0x12, 0x34]\<rparr>))"
proof -
  let ?d5 = "example_driver\<lparr>bufferMT := [0x00, 0x01, 0xAA, 0xBB, 0xCC]\<rparr>"
  let ?d2 = "example_driver\<lparr>bufferMT := [0x12, 0x34]\<rparr>"
  have r5: "readBufferMT ?d5 340 = [0x00, 0x01, 0xAA, 0xBB, 0xCC]"
    by (simp add: readBufferMT_def)
  have r2: "readBufferMT ?d2 340 = [0x12, 0x34]"
    by (simp add: readBufferMT_def)
  have id5: "getSystemId ?d5 = 99"
    by (simp add: example_driver_def)
  have len5: "2 < length (readBufferMT ?d5 340)"
    by (simp add: r5)
  have len2: "length (readBufferMT ?d2 340) \<le> 2"
    by (simp add: r2)
  have size2: "''invalid SBD message of size '' @ str_unsigned (length (readBufferMT ?d2 340)) =
      ''invalid SBD message of size 2''"
    by (simp add: r2 digit_char_def)
  note T5 = inbound_message_from_buffer [of ?d5]
  note T2 = inbound_message_from_buffer [of ?d2]
  have c1: "inbound_of (handleSBD ?d5) =
      [\<lparr>rx_source = 1, rx_destination = 99, rx_data = [0xAA, 0xBB, 0xCC]\<rparr>]"
    using T5 [THEN conjunct2, THEN conjunct2, THEN mp, OF r5] by (simp only: id5)
  have "\<exists>m. inbound_of (handleSBD ?d5) = [m] \<and>
           Dispatch_MsgRx m True \<in> set (handleSBD ?d5) \<and>
           unat (rx_source m) =
             256 * unat (readBufferMT ?d5 340 ! 0) + unat (readBufferMT ?d5 340 ! 1) \<and>
           rx_destination m = getSystemId ?d5 \<and>
           rx_data m = drop 2 (readBufferMT ?d5 340)"
    using T5 [THEN conjunct1, THEN mp, OF len5] by (rule conjunct1)
  then have c2: "\<exists>m. inbound_of (handleSBD ?d5) = [m] \<and>
        unat (rx_source m) = 1 \<and> rx_destination m = 99 \<and> rx_data m = [0xAA, 0xBB, 0xCC]"
    by (auto simp: r5 id5)
  have c3: "inbound_of (handleSBD ?d2) = [] \<and>
      Log_err ''invalid SBD message of size 2'' \<in> set (handleSBD ?d2)"
    using T2 [THEN conjunct2, THEN conjunct1, THEN mp, OF len2] by (simp only: size2)
  from c1 c2 c3 show ?thesis
    by (simp only: simp_thms)
qed

lemma inbound_of_append: "inbound_of (xs @ ys) = inbound_of xs @ inbound_of ys"
  by (induction xs rule: inbound_of.induct) simp_all

lemma inbound_of_handleSessionResult:
  "inbound_of (snd (handleSessionResult drv s)) =
     (if getStatusMT (getSessionResult drv) = 1 then inbound_of (handleSBD drv) else [])"
proof -
  have "inbound_of (snd (dequeueTxRequest k t)) = []" for k t
    by (cases "m_tx_request t") (simp_all add: dequeueTxRequest_def sendTxRequestStatus_def)
  moreover have "inbound_of (snd (invalidateTxRequest k e t)) = []" for k e t
    by (cases "m_tx_request t")
       (simp_all add: invalidateTxRequest_def sendTxRequestStatus_def Let_def
          del: str_unsigned.simps)
  ultimately show ?thesis
    by (simp add: handleSessionResult_snd inbound_of_append)
qed

lemma inbound_of_processQueue:
  "inbound_of (snd (processQueue drv s)) =
     (if \<not> isBusy drv \<and> hasSessionResult drv \<and> getStatusMT (getSessionResult drv) = 1
      then inbound_of (handleSBD drv) else [])"
proof -
  let ?p = "if hasSessionResult drv then handleSessionResult drv s else (s, [])"
  have a1: "inbound_of (snd ?p) =
      (if hasSessionResult drv \<and> getStatusMT (getSessionResult drv) = 1
       then inbound_of (handleSBD drv) else [])"
    by (simp add: inbound_of_handleSessionResult)
  have "inbound_of (snd (processQueue drv s)) =
      (if isBusy drv then [] else inbound_of (snd ?p))"
    by (simp add: processQueue_def Let_def split_beta inbound_of_append split: list.splits)
  then show ?thesis
    by (auto simp: inbound_of_handleSessionResult)
qed

text \<open>
  C10. Every inbound message that \<open>handleSBD\<close> dispatches, and so every inbound message
  dispatched in a cycle, has a payload of at least one and at most 338 bytes: the read
  returns at most 340 bytes, the first two are the source address, and a message is
  dispatched only when the read returned more than two bytes.
\<close>

theorem inbound_payload_bounds:
  "(\<forall>m \<in> set (inbound_of (handleSBD drv)). rx_data m \<noteq> [] \<and> length (rx_data m) \<le> 338) \<and>
   (\<forall>m \<in> set (inbound_of (snd (processQueue drv s))).
      rx_data m \<noteq> [] \<and> length (rx_data m) \<le> 338)"
proof -
  have len: "length (readBufferMT drv 340) \<le> 340"
    by (simp add: readBufferMT_def)
  have sbd: "rx_data m \<noteq> [] \<and> length (rx_data m) \<le> 338"
    if "m \<in> set (inbound_of (handleSBD drv))" for m
  proof (cases "2 < length (readBufferMT drv 340)")
    case True
    with that have "rx_data m = drop 2 (readBufferMT drv 340)"
      by (simp add: handleSBD_long)
    with True len show ?thesis by simp
  next
    case False
    with that show ?thesis
      by (simp add: handleSBD_short del: str_unsigned.simps)
  qed
  moreover have "set (inbound_of (snd (processQueue drv s))) \<subseteq> set (inbound_of (handleSBD drv))"
    by (auto simp: inbound_of_processQueue)
  ultimately show ?thesis by blast
qed

theorem inbound_payload_bounds_witness:
  "inbound_of (handleSBD (example_driver\<lparr>bufferMT := replicate 400 7\<rparr>)) =
     [\<lparr>rx_source = 1799, rx_destination = 99, rx_data = replicate 338 7\<rparr>] \<and>
   rx_data \<lparr>rx_source = 1799, rx_destination = 99, rx_data = replicate 338 (7::u8)\<rparr> \<noteq> [] \<and>
   length (rx_data \<lparr>rx_source = 1799, rx_destination = 99, rx_data = replicate 338 (7::u8)\<rparr>) \<le> 338"
proof -
  let ?d = "example_driver\<lparr>bufferMT := replicate 400 7\<rparr>"
  let ?m = "\<lparr>rx_source = 1799, rx_destination = 99, rx_data = replicate 338 (7::u8)\<rparr>"
  have e: "inbound_of (handleSBD ?d) = [?m]"
    by (simp add: handleSBD_def readBufferMT_def Let_def example_driver_def)
  then have "?m \<in> set (inbound_of (handleSBD ?d))"
    by simp
  with inbound_payload_bounds [of ?d]
  have "rx_data ?m \<noteq> [] \<and> length (rx_data ?m) \<le> 338"
    by blast
  with e show ?thesis
    by (simp only: simp_thms)
qed

subsection \<open>Mailbox polls\<close>

lemma polls_of_append: "polls_of (xs @ ys) = polls_of xs @ polls_of ys"
  by (induction xs rule: polls_of.induct) simp_all

lemma polls_of_handleSBD: "polls_of (handleSBD drv) = []"
  by (simp add: handleSBD_def Let_def del: str_unsigned.simps)

lemma polls_of_handleSessionResult: "polls_of (snd (handleSessionResult drv s)) = []"
proof -
  have "polls_of (snd (dequeueTxRequest k t)) = []" for k t
    by (cases "m_tx_request t") (simp_all add: dequeueTxRequest_def sendTxRequestStatus_def)
  moreover have "polls_of (snd (invalidateTxRequest k e t)) = []" for k e t
    by (cases "m_tx_request t")
       (simp_all add: invalidateTxRequest_def sendTxRequestStatus_def Let_def
          del: str_unsigned.simps)
  ultimately show ?thesis
    by (simp add: handleSessionResult_snd polls_of_append polls_of_handleSBD)
qed

lemma sends_of_handleSessionResult: "sends_of (snd (handleSessionResult drv s)) = []"
proof -
  have "sends_of (snd (dequeueTxRequest k t)) = []" for k t
    by (cases "m_tx_request t") (simp_all add: dequeueTxRequest_def sendTxRequestStatus_def)
  moreover have "sends_of (snd (invalidateTxRequest k e t)) = []" for k e t
    by (cases "m_tx_request t")
       (simp_all add: invalidateTxRequest_def sendTxRequestStatus_def Let_def
          del: str_unsigned.simps)
  moreover have "sends_of (handleSBD drv) = []"
    by (simp add: handleSBD_def Let_def del: str_unsigned.simps)
  ultimately show ?thesis
    by (simp add: handleSessionResult_snd sends_of_append)
qed

lemma handleSessionResult_keeps_nonempty:
  "m_tx_requests s \<noteq> [] \<Longrightarrow> m_tx_requests (fst (handleSessionResult drv s)) \<noteq> []"
proof -
  have "enqueue_loop r q \<noteq> []" for r q
    by (cases q) simp_all
  then show "m_tx_requests s \<noteq> [] \<Longrightarrow> m_tx_requests (fst (handleSessionResult drv s)) \<noteq> []"
    by (simp add: handleSessionResult_fst dequeueTxRequest_queue invalidateTxRequest_queue
          split: option.splits)
qed

lemma polls_of_processQueue:
  "polls_of (snd (processQueue drv s)) =
     (if gates_pass drv \<and>
         m_tx_requests (fst (if hasSessionResult drv then handleSessionResult drv s else (s, []))) = []
      then (if hasRingAlert drv then [Drv_checkMailBoxAlert]
            else if 0 < getQueuedMT drv \<or>
                    Counter_overflow (clock_now drv)
                      (m_mbox_check_timer
                         (fst (if hasSessionResult drv then handleSessionResult drv s else (s, []))))
            then [Drv_checkMailBox]
            else [])
      else [])"
proof -
  let ?p = "if hasSessionResult drv then handleSessionResult drv s else (s, [])"
  have a1: "polls_of (snd ?p) = []"
    by (simp add: polls_of_handleSessionResult)
  show ?thesis
  proof (cases "gates_pass drv")
    case False
    then show ?thesis
      using a1 by (auto simp: processQueue_def gates_pass_def Let_def split_beta)
  next
    case True
    then have g: "\<not> isBusy drv" "getRSSI drv \<noteq> 0" "\<not> isCooling drv"
      by (simp_all add: gates_pass_def)
    show ?thesis
    proof (cases "m_tx_requests (fst ?p)")
      case Nil
      with True g a1 show ?thesis
        by (simp add: processQueue_def Let_def split_beta polls_of_append)
    next
      case (Cons r rest)
      with True g a1 show ?thesis
        by (simp add: processQueue_def Let_def split_beta polls_of_append)
    qed
  qed
qed

lemma sends_of_processQueue_empty:
  assumes "m_tx_requests (fst (if hasSessionResult drv then handleSessionResult drv s else (s, []))) = []"
  shows "sends_of (snd (processQueue drv s)) = []"
proof -
  let ?p = "if hasSessionResult drv then handleSessionResult drv s else (s, [])"
  have a1: "sends_of (snd ?p) = []"
    by (simp add: sends_of_handleSessionResult)
  with assms show ?thesis
    by (simp add: processQueue_def Let_def split_beta sends_of_append)
qed

text \<open>
  C9. A cycle that passes the gates (not busy, signal, not cooling) and finds the queue
  empty when it comes to look at it, that is after a pending session result has been
  handled, triggers exactly the poll the two tests select and sends nothing: a mailbox
  alert check when the ring alert is set; otherwise a mailbox check when messages are
  queued at the gateway or the mailbox-check timer has overflowed; otherwise none. The
  queue is empty at that point whenever it was empty at the start of the cycle and
  there is no active request or no session result to handle. A cycle that starts with a
  non-empty queue triggers no poll of either kind. In every cycle at most one poll is
  triggered.
\<close>

theorem mailbox_poll_selection:
  "(gates_pass drv \<and>
    m_tx_requests (fst (if hasSessionResult drv then handleSessionResult drv s else (s, []))) = [] \<longrightarrow>
      polls_of (snd (processQueue drv s)) =
        (if hasRingAlert drv then [Drv_checkMailBoxAlert]
         else if 0 < getQueuedMT drv \<or>
                 Counter_overflow (clock_now drv)
                   (m_mbox_check_timer
                      (fst (if hasSessionResult drv then handleSessionResult drv s else (s, []))))
         then [Drv_checkMailBox]
         else []) \<and>
      sends_of (snd (processQueue drv s)) = []) \<and>
   ((m_tx_request s = None \<or> \<not> hasSessionResult drv) \<and> m_tx_requests s = [] \<longrightarrow>
      m_tx_requests (fst (if hasSessionResult drv then handleSessionResult drv s else (s, []))) = []) \<and>
   (m_tx_requests t \<noteq> [] \<longrightarrow> polls_of (snd (processQueue d t)) = []) \<and>
   length (polls_of (snd (processQueue drv s))) \<le> 1"
proof (intro conjI impI)
  assume h: "gates_pass drv \<and>
    m_tx_requests (fst (if hasSessionResult drv then handleSessionResult drv s else (s, []))) = []"
  then show "polls_of (snd (processQueue drv s)) =
        (if hasRingAlert drv then [Drv_checkMailBoxAlert]
         else if 0 < getQueuedMT drv \<or>
                 Counter_overflow (clock_now drv)
                   (m_mbox_check_timer
                      (fst (if hasSessionResult drv then handleSessionResult drv s else (s, []))))
         then [Drv_checkMailBox]
         else [])"
    by (simp only: polls_of_processQueue if_True simp_thms)
  from h show "sends_of (snd (processQueue drv s)) = []"
    by (intro sends_of_processQueue_empty) simp
next
  assume "(m_tx_request s = None \<or> \<not> hasSessionResult drv) \<and> m_tx_requests s = []"
  then show "m_tx_requests (fst (if hasSessionResult drv then handleSessionResult drv s else (s, []))) = []"
    by (auto simp: handleSessionResult_fst dequeueTxRequest_idle invalidateTxRequest_idle)
next
  assume "m_tx_requests t \<noteq> []"
  then have "m_tx_requests (fst (if hasSessionResult d then handleSessionResult d t else (t, []))) \<noteq> []"
    by (simp add: handleSessionResult_keeps_nonempty)
  then show "polls_of (snd (processQueue d t)) = []"
    by (simp only: polls_of_processQueue simp_thms if_False)
next
  show "length (polls_of (snd (processQueue drv s))) \<le> 1"
    by (simp add: polls_of_processQueue)
qed

theorem mailbox_poll_selection_witness:
  "polls_of (snd (processQueue (example_driver\<lparr>hasRingAlert := True, getQueuedMT := 2\<rparr>)
      (example_task [] None))) = [Drv_checkMailBoxAlert] \<and>
   sends_of (snd (processQueue (example_driver\<lparr>hasRingAlert := True, getQueuedMT := 2\<rparr>)
      (example_task [] None))) = [] \<and>
   polls_of (snd (processQueue (example_driver\<lparr>hasRingAlert := True, getQueuedMT := 2\<rparr>)
      (example_task [example_request 1 3 [1]] None))) = [] \<and>
   length (polls_of (snd (processQueue (example_driver\<lparr>hasRingAlert := True, getQueuedMT := 2\<rparr>)
      (example_task [] None)))) \<le> 1 \<and>
   m_tx_requests (fst (if hasSessionResult (example_driver\<lparr>hasRingAlert := True, getQueuedMT := 2\<rparr>)
      then handleSessionResult (example_driver\<lparr>hasRingAlert := True, getQueuedMT := 2\<rparr>)
             (example_task [] None)
      else (example_task [] None, []))) = []"
proof -
  let ?d = "example_driver\<lparr>hasRingAlert := True, getQueuedMT := 2\<rparr>"
  let ?s = "example_task [] None"
  let ?t = "example_task [example_request 1 3 [1]] None"
  have h: "gates_pass ?d \<and>
      m_tx_requests (fst (if hasSessionResult ?d then handleSessionResult ?d ?s else (?s, []))) = []"
    by (simp add: gates_pass_def example_driver_def example_task_def)
  have ring: "hasRingAlert ?d = True"
    by simp
  have q: "m_tx_requests ?t \<noteq> []"
    by (simp add: example_task_def)
  note T = mailbox_poll_selection [of ?d ?s ?t ?d]
  have c1: "polls_of (snd (processQueue ?d ?s)) = [Drv_checkMailBoxAlert] \<and>
      sends_of (snd (processQueue ?d ?s)) = []"
    using T [THEN conjunct1, THEN mp, OF h] by (simp only: ring if_True)
  have b: "(m_tx_request ?s = None \<or> \<not> hasSessionResult ?d) \<and> m_tx_requests ?s = []"
    by (simp add: example_task_def)
  have c2: "polls_of (snd (processQueue ?d ?t)) = []"
    by (rule T [THEN conjunct2, THEN conjunct2, THEN conjunct1, THEN mp, OF q])
  have c3: "length (polls_of (snd (processQueue ?d ?s))) \<le> 1"
    by (rule T [THEN conjunct2, THEN conjunct2, THEN conjunct2])
  have c4: "m_tx_requests (fst (if hasSessionResult ?d then handleSessionResult ?d ?s
      else (?s, []))) = []"
    by (rule T [THEN conjunct2, THEN conjunct1, THEN mp, OF b])
  from c1 c2 c3 c4 show ?thesis
    by (simp only: simp_thms)
qed

end
